theory Spec2Isabelle
  imports Complex_Main "HOL-Library.Sublist" "HOL-Library.Log_Nat"
begin

section \<open>Python strings\<close>

text \<open>
  A Python \<open>str\<close> is modelled as a \<open>string\<close> of ASCII characters. The substring test
  \<open>p in s\<close> is \<^const>\<open>sublist\<close> (a contiguous, possibly empty, run of \<open>s\<close>), which is
  executable.
\<close>

definition ascii_upper :: "char \<Rightarrow> char" where
  "ascii_upper c =
     (let n = (of_char c :: nat) in if 97 \<le> n \<and> n \<le> 122 then char_of (n - 32) else c)"

text \<open>\<open>s.upper()\<close> on ASCII text.\<close>

definition upper :: "string \<Rightarrow> string" where
  "upper s = map ascii_upper s"

definition is_digit :: "char \<Rightarrow> bool" where
  "is_digit c = (let n = (of_char c :: nat) in 48 \<le> n \<and> n \<le> 57)"

definition digit_val :: "char \<Rightarrow> nat" where
  "digit_val c = of_char c - 48"

definition digit_char :: "int \<Rightarrow> char" where
  "digit_char d = char_of (48 + d)"

text \<open>\<open>int(s)\<close> on a run of decimal digits.\<close>

definition int_of_digits :: "string \<Rightarrow> int" where
  "int_of_digits ds = foldl (\<lambda>a c. 10 * a + int (digit_val c)) 0 ds"

text \<open>\<open>str(n)\<close> for an integer: the decimal digits, after a minus for a negative one.\<close>

function str_digits :: "int \<Rightarrow> string" where
  "str_digits n =
     (if n < 10 then [digit_char n] else str_digits (n div 10) @ [digit_char (n mod 10)])"
  by pat_completeness auto

termination
  by (relation "measure nat") auto

declare str_digits.simps [simp del]

definition str_int :: "int \<Rightarrow> string" where
  "str_int n = (if n < 0 then ''-'' @ str_digits (- n) else str_digits n)"

abbreviation sq :: string where
  "sq \<equiv> [CHR 0x27]"

abbreviation dq :: string where
  "dq \<equiv> [CHR 0x22]"

text \<open>
  \<open>s.replace(old, new)\<close>: every non-overlapping occurrence of \<open>old\<close>, from left to
  right. With an empty \<open>old\<close>, Python puts \<open>new\<close> before every character and at the end.
\<close>

fun replace_from :: "string \<Rightarrow> string \<Rightarrow> string \<Rightarrow> string" where
  "replace_from old new [] = []"
| "replace_from old new (c # cs) =
     (if old \<noteq> [] \<and> prefix old (c # cs)
      then new @ replace_from old new (drop (length old - 1) cs)
      else c # replace_from old new cs)"

definition str_replace :: "string \<Rightarrow> string \<Rightarrow> string \<Rightarrow> string" where
  "str_replace old new s =
     (if old = [] then new @ concat (map (\<lambda>c. c # new) s) else replace_from old new s)"

text \<open>\<open>s.strip(chars)\<close>: characters of \<open>chars\<close> are dropped from both ends.\<close>

definition strip_chars :: "string \<Rightarrow> string \<Rightarrow> string" where
  "strip_chars chars s =
     rev (dropWhile (\<lambda>c. c \<in> set chars) (rev (dropWhile (\<lambda>c. c \<in> set chars) s)))"

text \<open>
  The ASCII characters for which \<open>str.isspace\<close> holds: tab, line feed, vertical tab,
  form feed, carriage return, the four separators \<open>0x1c\<close> to \<open>0x1f\<close>, and space.
\<close>

definition is_space :: "char \<Rightarrow> bool" where
  "is_space c = (let n = (of_char c :: nat) in (9 \<le> n \<and> n \<le> 13) \<or> (28 \<le> n \<and> n \<le> 32))"

text \<open>\<open>s.strip()\<close>.\<close>

definition strip :: "string \<Rightarrow> string" where
  "strip s = rev (dropWhile is_space (rev (dropWhile is_space s)))"

text \<open>\<open>sep.join(xs)\<close>.\<close>

fun join :: "string \<Rightarrow> string list \<Rightarrow> string" where
  "join sep [] = []"
| "join sep [x] = x"
| "join sep (x # y # ys) = x @ sep @ join sep (y # ys)"

section \<open>Python floats read from text\<close>

text \<open>
  \<open>float(s)\<close> for a string \<open>s\<close>. The value is a finite binary64 number (held as the
  rational it denotes), an infinity or a NaN. A string that is not a float literal raises
  \<open>ValueError\<close>, which is \<open>None\<close> here.
\<close>

datatype pyfloat = Finite rat | PosInf | NegInf | NaN

text \<open>The whitespace that \<open>float\<close> skips around an ASCII literal.\<close>

definition is_c_space :: "char \<Rightarrow> bool" where
  "is_c_space c = (let n = (of_char c :: nat) in (9 \<le> n \<and> n \<le> 13) \<or> n = 32)"

text \<open>
  The grammar of the literal, from the language reference:
  \<^verbatim>\<open>digitpart ::= digit (["_"] digit)*\<close>,
  \<^verbatim>\<open>number ::= [digitpart] "." digitpart | digitpart ["."]\<close>,
  \<^verbatim>\<open>exponent ::= ("e" | "E") [sign] digitpart\<close>,
  \<^verbatim>\<open>floatvalue ::= [sign] (number [exponent] | "inf" | "infinity" | "nan")\<close>,
  the three words in any case. \<open>digitpart_rest\<close> reads what follows the first digit of a
  digitpart and returns the digits read and the text left.
\<close>

fun digitpart_rest :: "string \<Rightarrow> string \<times> string" where
  "digitpart_rest [] = ([], [])"
| "digitpart_rest [c] = (if is_digit c then ([c], []) else ([], [c]))"
| "digitpart_rest (c # d # cs) =
     (if is_digit c then (case digitpart_rest (d # cs) of (ds, r) \<Rightarrow> (c # ds, r))
      else if c = CHR ''_'' \<and> is_digit d then (case digitpart_rest cs of (ds, r) \<Rightarrow> (d # ds, r))
      else ([], c # d # cs))"

definition digitpart :: "string \<Rightarrow> (string \<times> string) option" where
  "digitpart s =
     (case s of
        [] \<Rightarrow> None
      | c # cs \<Rightarrow>
          if is_digit c then (case digitpart_rest cs of (ds, r) \<Rightarrow> Some (c # ds, r)) else None)"

text \<open>An optional sign: whether it is a minus, and the text left.\<close>

definition opt_sign :: "string \<Rightarrow> bool \<times> string" where
  "opt_sign s =
     (case s of
        [] \<Rightarrow> (False, [])
      | c # cs \<Rightarrow>
          if c = CHR ''-'' then (True, cs) else if c = CHR ''+'' then (False, cs) else (False, s))"

text \<open>The digits before the point, the digits after it, and the text left.\<close>

definition number :: "string \<Rightarrow> (string \<times> string \<times> string) option" where
  "number s =
     (case digitpart s of
        Some (ip, r) \<Rightarrow>
          (case r of
             [] \<Rightarrow> Some (ip, [], [])
           | c # cs \<Rightarrow>
               if c = CHR ''.'' then
                 (case digitpart cs of Some (fp, r') \<Rightarrow> Some (ip, fp, r') | None \<Rightarrow> Some (ip, [], cs))
               else Some (ip, [], r))
      | None \<Rightarrow>
          (case s of
             [] \<Rightarrow> None
           | c # cs \<Rightarrow>
               if c = CHR ''.'' then
                 (case digitpart cs of Some (fp, r') \<Rightarrow> Some ([], fp, r') | None \<Rightarrow> None)
               else None))"

text \<open>The optional exponent, which must end the literal.\<close>

definition exponent :: "string \<Rightarrow> int option" where
  "exponent s =
     (case s of
        [] \<Rightarrow> Some 0
      | c # cs \<Rightarrow>
          if c = CHR ''e'' \<or> c = CHR ''E'' then
            (case opt_sign cs of
               (neg, r) \<Rightarrow>
                 (case digitpart r of
                    Some (ds, []) \<Rightarrow>
                      Some (if neg then - int_of_digits ds else int_of_digits ds)
                  | _ \<Rightarrow> None))
          else None)"

definition pow10 :: "int \<Rightarrow> rat" where
  "pow10 k = (if 0 \<le> k then 10 ^ nat k else 1 / 10 ^ nat (- k))"

definition pow2 :: "int \<Rightarrow> rat" where
  "pow2 k = (if 0 \<le> k then 2 ^ nat k else 1 / 2 ^ nat (- k))"

text \<open>Rounding to the nearest integer, a tie to the even one.\<close>

definition round_half_even :: "rat \<Rightarrow> int" where
  "round_half_even x =
     (let f = \<lfloor>x\<rfloor>; d = x - of_int f
      in if d < 1 / 2 then f else if 1 / 2 < d then f + 1 else if even f then f else f + 1)"

text \<open>The \<open>e\<close> with \<open>2 ^ e \<le> a < 2 ^ (e + 1)\<close>, for a positive \<open>a\<close>.\<close>

definition floor_log2 :: "rat \<Rightarrow> int" where
  "floor_log2 a =
     (case quotient_of a of
        (p, q) \<Rightarrow>
          (let k = bitlen p - bitlen q
           in if pow2 k \<le> a then k else k - 1))"

text \<open>
  The binary64 number nearest to a non-negative rational (53 significant bits, the least
  exponent \<open>-1022\<close>, a tie to the even significand), or \<open>None\<close> when that is beyond the
  largest finite one, where \<open>float\<close> gives an infinity.
\<close>

definition to_binary64 :: "rat \<Rightarrow> rat option" where
  "to_binary64 a =
     (if a = 0 then Some 0
      else
        (let q = max (floor_log2 a) (- 1022) - 52;
             r = of_int (round_half_even (a / pow2 q)) * pow2 q
         in if pow2 1024 \<le> r then None else Some r))"

definition py_float :: "string \<Rightarrow> pyfloat option" where
  "py_float s =
     (case opt_sign (rev (dropWhile is_c_space (rev (dropWhile is_c_space s)))) of
        (neg, body) \<Rightarrow>
          if upper body = ''INF'' \<or> upper body = ''INFINITY'' then Some (if neg then NegInf else PosInf)
          else if upper body = ''NAN'' then Some NaN
          else
            (case number body of
               None \<Rightarrow> None
             | Some (ip, fp, r) \<Rightarrow>
                 (case exponent r of
                    None \<Rightarrow> None
                  | Some e \<Rightarrow>
                      (case to_binary64
                              (of_int (int_of_digits (ip @ fp)) * pow10 (e - int (length fp))) of
                         None \<Rightarrow> Some (if neg then NegInf else PosInf)
                       | Some r \<Rightarrow> Some (Finite (if neg then - r else r))))))"

text \<open>The comparisons \<open>x < c\<close> and \<open>x > c\<close> of a float with an integer constant.\<close>

fun float_less :: "pyfloat \<Rightarrow> rat \<Rightarrow> bool" where
  "float_less (Finite x) c = (x < c)"
| "float_less NegInf c = True"
| "float_less PosInf c = False"
| "float_less NaN c = False"

fun float_greater :: "pyfloat \<Rightarrow> rat \<Rightarrow> bool" where
  "float_greater (Finite x) c = (c < x)"
| "float_greater PosInf c = True"
| "float_greater NegInf c = False"
| "float_greater NaN c = False"

section \<open>Type mapping\<close>

text \<open>
  Functions that print return the printed lines, in order, beside their result. A function
  returning \<open>str | None\<close> returns a \<open>string option\<close>.
\<close>

definition INTEGER_TYPES :: "(string \<times> string) list" where
  "INTEGER_TYPES =
     [(''TINYINT'', ''TINYINT''),
      (''SMALLINT'', ''SMALLINT''),
      (''MEDIUMINT'', ''MEDIUMINT''),
      (''BIGINT'', ''BIGINT UNSIGNED''),
      (''INT'', ''INT UNSIGNED'')]"

definition NUMERIC_TYPES :: "(string list \<times> string) list" where
  "NUMERIC_TYPES =
     [([''REAL'', ''FLOA'', ''DOUB''], ''DOUBLE''),
      ([''NUM'', ''DEC''], ''DECIMAL(10,2)''),
      ([''BOOL''], ''TINYINT(1)'')]"

definition TEXT_TYPES :: "string list" where
  "TEXT_TYPES = [''CHAR'', ''CLOB'', ''TEXT'']"

definition BLOB_TYPES :: "string list" where
  "BLOB_TYPES = [''BLOB'']"

definition INDEXED_VARCHAR_MAX :: int where
  "INDEXED_VARCHAR_MAX = 191"

definition DEFAULT_VARCHAR_MAX :: int where
  "DEFAULT_VARCHAR_MAX = 255"

text \<open>The dictionary is iterated in insertion order; the first key contained in the type wins.\<close>

definition map_integer_type :: "string \<Rightarrow> string option" where
  "map_integer_type sqlite_type_upper =
     (case find (\<lambda>(key, mysql_type). sublist key sqlite_type_upper) INTEGER_TYPES of
        Some (key, mysql_type) \<Rightarrow> Some mysql_type
      | None \<Rightarrow> None)"

definition map_numeric_type :: "string \<Rightarrow> string option" where
  "map_numeric_type sqlite_type_upper =
     (case find (\<lambda>(keys, mysql_type). list_ex (\<lambda>k. sublist k sqlite_type_upper) keys)
             NUMERIC_TYPES of
        Some (keys, mysql_type) \<Rightarrow> Some mysql_type
      | None \<Rightarrow> None)"

text \<open>
  \<open>re.search(r'\((\d+)\)', s)\<close>: the leftmost opening parenthesis that is followed by a
  non-empty run of digits and a closing parenthesis; the result is group 1, the digits.
\<close>

fun re_search_length :: "string \<Rightarrow> string option" where
  "re_search_length [] = None"
| "re_search_length (c # cs) =
     (if c = CHR ''('' \<and> takeWhile is_digit cs \<noteq> [] \<and>
         (case dropWhile is_digit cs of [] \<Rightarrow> False | r # _ \<Rightarrow> r = CHR '')'')
      then Some (takeWhile is_digit cs)
      else re_search_length cs)"

definition map_text_type :: "string \<Rightarrow> bool \<Rightarrow> bool \<Rightarrow> string option \<times> string list" where
  "map_text_type sqlite_type_raw is_primary_key is_unique =
     (let sqlite_type_upper = upper sqlite_type_raw in
      if \<not> list_ex (\<lambda>k. sublist k sqlite_type_upper) TEXT_TYPES then (None, [])
      else if is_primary_key \<or> is_unique then
        (Some (''VARCHAR('' @ str_int INDEXED_VARCHAR_MAX @ '')''),
         [''Warning: Indexed text column '' @ sq @ sqlite_type_raw @ sq @ '' mapped to '' @
          ''VARCHAR('' @ str_int INDEXED_VARCHAR_MAX @ '') for index compatibility.''])
      else
        (case re_search_length sqlite_type_raw of
           Some ds \<Rightarrow>
             (Some (''VARCHAR('' @ str_int (min (int_of_digits ds) DEFAULT_VARCHAR_MAX) @ '')''),
              [])
         | None \<Rightarrow> (Some ''LONGTEXT'', [])))"

definition map_blob_type :: "string \<Rightarrow> bool \<Rightarrow> bool \<Rightarrow> string option \<times> string list" where
  "map_blob_type sqlite_type_raw is_primary_key is_unique =
     (if \<not> sublist ''BLOB'' (upper sqlite_type_raw) then (None, [])
      else if is_primary_key \<or> is_unique then
        (Some (''VARBINARY('' @ str_int INDEXED_VARCHAR_MAX @ '')''),
         [''Warning: Indexed BLOB column '' @ sq @ sqlite_type_raw @ sq @ '' mapped to '' @
          ''VARBINARY('' @ str_int INDEXED_VARCHAR_MAX @ '') for index compatibility.''])
      else (Some ''BLOB'', []))"

definition map_datetime_type :: "string \<Rightarrow> string option" where
  "map_datetime_type sqlite_type_upper =
     (if sqlite_type_upper = ''TIME'' then Some ''TIME''
      else if sublist ''DATE'' sqlite_type_upper then Some ''DATETIME''
      else None)"

text \<open>Python truthiness of a \<open>str | None\<close>: \<open>None\<close> and the empty string are false.\<close>

definition truthy :: "string option \<Rightarrow> bool" where
  "truthy r = (case r of None \<Rightarrow> False | Some s \<Rightarrow> s \<noteq> [])"

text \<open>
  The loop over the mappers of \<open>map_sqlite_to_mysql_type\<close>: each mapper is applied to the
  upper-cased type, and the first truthy result is returned. What the mappers tried so far
  have printed is kept.
\<close>

fun try_mappers ::
  "(string \<Rightarrow> string option \<times> string list) list \<Rightarrow> string \<Rightarrow> string list \<Rightarrow>
   string option \<times> string list" where
  "try_mappers [] t out = (None, out)"
| "try_mappers (mapper # ms) t out =
     (case mapper t of
        (mysql_type, printed) \<Rightarrow>
          if truthy mysql_type then (mysql_type, out @ printed)
          else try_mappers ms t (out @ printed))"

definition map_sqlite_to_mysql_type :: "string \<Rightarrow> bool \<Rightarrow> bool \<Rightarrow> string \<times> string list" where
  "map_sqlite_to_mysql_type sqlite_type_raw is_primary_key is_unique =
     (case try_mappers
             [\<lambda>t. (map_integer_type t, []),
              \<lambda>t. map_text_type sqlite_type_raw is_primary_key is_unique,
              \<lambda>t. map_blob_type sqlite_type_raw is_primary_key is_unique,
              \<lambda>t. (map_numeric_type t, []),
              \<lambda>t. (map_datetime_type t, [])]
             (upper sqlite_type_raw) [] of
        (Some mysql_type, out) \<Rightarrow> (mysql_type, out)
      | (None, out) \<Rightarrow>
          (''VARCHAR(255)'',
           out @ [''Warning: Unknown SQLite type '' @ sq @ sqlite_type_raw @ sq @
                  ''. Defaulting to VARCHAR(255).'']))"

section \<open>Default values\<close>

text \<open>
  \<open>build_default_sql\<close> receives the \<open>dflt_value\<close> field of \<open>PRAGMA table_info\<close>, which
  is \<open>None\<close> or the text of the default expression; \<open>str\<close> of a string is the string. The
  result is the pair the function returns and the lines it prints.
\<close>

definition build_default_sql ::
  "string option \<Rightarrow> string \<Rightarrow> string \<Rightarrow> string \<Rightarrow> (string \<times> string) \<times> string list" where
  "build_default_sql default_value mysql_type table_name col_name =
     (case default_value of
        None \<Rightarrow> (('''', mysql_type), [])
      | Some default_str_raw \<Rightarrow>
          (let default_str = str_replace dq sq (upper default_str_raw) in
           if default_str = ''CURRENT_TIMESTAMP''
              \<or> default_str = sq @ ''CURRENT_TIMESTAMP'' @ sq
              \<or> sublist (''DATETIME('' @ sq @ ''NOW'' @ sq @ '')'') default_str
           then (('' DEFAULT CURRENT_TIMESTAMP'', mysql_type), [])
           else if default_str \<in> set [''NULL'', sq @ ''NULL'' @ sq]
           then (('' DEFAULT NULL'', mysql_type), [])
           else
             (case py_float default_str_raw of
                Some numeric_value \<Rightarrow>
                  if sublist ''TINYINT'' mysql_type
                     \<and> (float_less numeric_value (- 128) \<or> float_greater numeric_value 127)
                  then
                    (('' DEFAULT '' @ default_str_raw,
                      str_replace ''TINYINT'' ''SMALLINT'' mysql_type),
                     [''Warning: Default value '' @ default_str_raw @ '' for TINYINT column '' @
                      sq @ table_name @ ''.'' @ col_name @ sq @ '' exceeds range. '' @
                      ''Promoting column to SMALLINT.''])
                  else (('' DEFAULT '' @ default_str_raw, mysql_type), [])
              | None \<Rightarrow>
                  (('' DEFAULT '' @ sq @
                    str_replace sq (sq @ sq) (strip_chars (sq @ dq) default_str_raw) @ sq,
                    mysql_type),
                   []))))"

section \<open>Auto-increment and NOT NULL\<close>

definition set_ai_nns ::
  "int \<Rightarrow> string \<Rightarrow> int \<Rightarrow> string \<Rightarrow> string \<Rightarrow> (string \<times> string) \<times> string list" where
  "set_ai_nns pk mysql_type not_null col_name table_name =
     (if pk = 1 \<and> (sublist ''INT'' mysql_type \<or> sublist ''BIGINT'' mysql_type) then
        (('' AUTO_INCREMENT'', '' NOT NULL''),
         if not_null = 0 then
           [''Warning: Primary key '' @ sq @ col_name @ sq @ '' in table '' @ sq @ table_name @ sq @
            '' is NULLABLE'' @ replicate 17 CHR '' '' @
            ''in SQLite. MySQL AUTO_INCREMENT implies NOT NULL.'']
         else [])
      else if not_null = 1 then (('''', '' NOT NULL''), [])
      else (('''', ''''), []))"

section \<open>Column definitions\<close>

text \<open>
  A row of \<open>PRAGMA table_info\<close>: \<open>col[0]\<close> to \<open>col[5]\<close>. The primary-key field is \<open>0\<close> for a
  column outside the primary key and the position of the column in the key otherwise.
\<close>

record column =
  cid :: int
  name :: string
  ctype :: string
  notnull :: int
  dflt_value :: "string option"
  pk :: int

text \<open>
  A row of \<open>PRAGMA index_list\<close>, with the fields the program reads: \<open>idx[1]\<close> and \<open>idx[2]\<close>.
  \<open>PRAGMA index_info\<close> is a function from the name of an index to the column names
  (\<open>idx_cols[k][2]\<close>, \<open>None\<close> for an expression) of its rows.
\<close>

record sqlite_index =
  idx_name :: string
  is_unique_idx :: int

text \<open>The loop over the indexes, left at the first unique index on this column alone.\<close>

fun unique_index_loop :: "(string \<Rightarrow> string option list) \<Rightarrow> string \<Rightarrow> sqlite_index list \<Rightarrow> bool" where
  "unique_index_loop index_info col_name [] = False"
| "unique_index_loop index_info col_name (idx # indexes) =
     (if is_unique_idx idx = 1
         \<and> (case index_info (idx_name idx) of [c] \<Rightarrow> c = Some col_name | _ \<Rightarrow> False)
      then True
      else unique_index_loop index_info col_name indexes)"

text \<open>
  \<open>process_columns\<close> appends to \<open>col_defs\<close> and \<open>primary_keys\<close>; here it returns the two
  lists and the lines printed. \<open>indexes\<close> is the answer to \<open>PRAGMA index_list\<close> for the
  table.
\<close>

definition process_columns ::
  "sqlite_index list \<Rightarrow> (string \<Rightarrow> string option list) \<Rightarrow> column \<Rightarrow> string \<Rightarrow>
   string list \<Rightarrow> string set \<Rightarrow> string list \<Rightarrow> string list \<times> string list \<times> string list" where
  "process_columns indexes index_info col table_name col_defs pk_col_names primary_keys =
     (let is_unique_col = unique_index_loop index_info (name col) indexes in
      case map_sqlite_to_mysql_type (ctype col) (name col \<in> pk_col_names) is_unique_col of
        (mysql_type, out1) \<Rightarrow>
      case set_ai_nns (pk col) mysql_type (notnull col) (name col) table_name of
        ((auto_increment, not_null_sql), out2) \<Rightarrow>
      case build_default_sql (dflt_value col) mysql_type table_name (name col) of
        ((default_sql, mysql_type'), out3) \<Rightarrow>
      (let col_defs1 =
             col_defs @
             [strip (''`'' @ name col @ ''` '' @ mysql_type' @ not_null_sql @ default_sql @
                     auto_increment)];
           primary_keys1 =
             (if pk col = 1 then primary_keys @ [''`'' @ name col @ ''`''] else primary_keys);
           col_defs2 =
             (if is_unique_col \<and> name col \<notin> pk_col_names
              then col_defs1 @ [''UNIQUE (`'' @ name col @ ''`)'']
              else col_defs1)
       in (col_defs2, primary_keys1, out1 @ out2 @ out3)))"

section \<open>The CREATE TABLE statement\<close>

abbreviation nl :: string where
  "nl \<equiv> [CHR 0x0A]"

fun process_all_columns ::
  "sqlite_index list \<Rightarrow> (string \<Rightarrow> string option list) \<Rightarrow> string \<Rightarrow> string set \<Rightarrow>
   column list \<Rightarrow> string list \<times> string list \<times> string list \<Rightarrow>
   string list \<times> string list \<times> string list" where
  "process_all_columns indexes index_info table_name pk_col_names [] acc = acc"
| "process_all_columns indexes index_info table_name pk_col_names (col # columns)
     (col_defs, primary_keys, out) =
     (case process_columns indexes index_info col table_name col_defs pk_col_names primary_keys of
        (col_defs', primary_keys', printed) \<Rightarrow>
          process_all_columns indexes index_info table_name pk_col_names columns
            (col_defs', primary_keys', out @ printed))"

text \<open>
  \<open>migrate_table\<close> up to the statement it generates: \<open>None\<close> for an internal table, which
  is skipped, and otherwise the CREATE TABLE statement with the lines printed while the
  columns were processed. \<open>columns\<close> is the answer to \<open>PRAGMA table_info\<close> for the table.
\<close>

definition create_stmt_of ::
  "sqlite_index list \<Rightarrow> (string \<Rightarrow> string option list) \<Rightarrow> string \<Rightarrow> column list \<Rightarrow>
   (string \<times> string list) option" where
  "create_stmt_of indexes index_info table_name columns =
     (if table_name = ''sqlite_sequence'' then None
      else if prefix ''sqlite_autoindex_'' table_name then None
      else
        (let escaped_table_name = ''`'' @ table_name @ ''`'';
             pk_col_names = set (map name (filter (\<lambda>col. pk col = 1) columns))
         in case process_all_columns indexes index_info table_name pk_col_names columns
                   ([], [], []) of
              (col_defs, primary_keys, out) \<Rightarrow>
                (let col_defs' =
                       (if primary_keys \<noteq> []
                        then col_defs @ [''PRIMARY KEY ('' @ join '', '' primary_keys @ '')'']
                        else col_defs);
                     joined_col_defs = join ('','' @ nl @ ''    '') col_defs'
                 in Some (''CREATE TABLE IF NOT EXISTS '' @ escaped_table_name @ '' ('' @ nl @
                          ''    '' @ joined_col_defs @ nl @ '') '' @
                          ''ENGINE=InnoDB DEFAULT CHARSET=utf8mb4 COLLATE=utf8mb4_unicode_ci;'',
                          out))))"

section \<open>Timestamps of the migrations log\<close>

text \<open>
  The values \<open>sqlite3\<close> puts in a row: \<open>None\<close>, an \<open>int\<close>, a \<open>float\<close> (held as the rational
  it denotes), a \<open>str\<close> or \<open>bytes\<close>. A row is the list of its fields.
\<close>

datatype pyval = PNone | PInt int | PFloat rat | PStr string | PBytes string

type_synonym row = "pyval list"

text \<open>
  The guard \<open>migration_time and str(migration_time).isdigit()\<close>, with what \<open>str\<close> and \<open>int\<close>
  give for a value that passes it. A non-zero \<open>int\<close> passes when it is positive, since the
  text of a negative one starts with a minus, and a \<open>str\<close> passes when it is a non-empty run
  of digits. \<open>None\<close>, \<open>0\<close>, the empty string and empty \<open>bytes\<close> are false; the text of a
  \<open>float\<close> has a point, an exponent, \<open>inf\<close> or \<open>nan\<close>, and the text of \<open>bytes\<close> starts with
  the letter \<open>b\<close>.
\<close>

fun epoch_of :: "pyval \<Rightarrow> (string \<times> int) option" where
  "epoch_of (PInt n) = (if n \<noteq> 0 \<and> 0 \<le> n then Some (str_int n, n) else None)"
| "epoch_of (PStr s) = (if s \<noteq> [] \<and> list_all is_digit s then Some (s, int_of_digits s) else None)"
| "epoch_of PNone = None"
| "epoch_of (PFloat x) = None"
| "epoch_of (PBytes b) = None"

text \<open>
  \<open>datetime.fromtimestamp(n).strftime('%Y-%m-%d %H:%M:%S')\<close> depends on the platform and
  its time zone, so it is a parameter: it gives the formatted text, or raises \<open>ValueError\<close>
  or \<open>OSError\<close> with a message, or raises \<open>OverflowError\<close>, as it does for a timestamp
  outside the platform's \<open>time_t\<close>.
\<close>

datatype ts_result = Formatted string | Fails string | Overflows

datatype py_error = OverflowError

text \<open>The body of the loop of \<open>knex_timestamp_conversion\<close>: the new row and the lines printed.\<close>

definition convert_row :: "(int \<Rightarrow> ts_result) \<Rightarrow> row \<Rightarrow> py_error + (row \<times> string list)" where
  "convert_row fromtimestamp row_data =
     (if 4 \<le> length row_data then
        (case epoch_of (row_data ! 3) of
           Some (text, n) \<Rightarrow>
             (let timestamp_val = (if 4000000000 < n then n div 1000 else n) in
              case fromtimestamp timestamp_val of
                Formatted s \<Rightarrow> Inr (row_data[3 := PStr s], [])
              | Fails e \<Rightarrow>
                  Inr (row_data[3 := PNone],
                       [''Warning: Could not convert timestamp '' @ text @ '': '' @ e])
              | Overflows \<Rightarrow> Inl OverflowError)
         | None \<Rightarrow> Inr (row_data, []))
      else Inr (row_data, []))"

fun knex_loop ::
  "(int \<Rightarrow> ts_result) \<Rightarrow> row list \<Rightarrow> row list \<times> string list \<Rightarrow>
   py_error + (row list \<times> string list)" where
  "knex_loop fromtimestamp [] (processed_rows, out) = Inr (processed_rows, out)"
| "knex_loop fromtimestamp (row_data # rows) (processed_rows, out) =
     (case convert_row fromtimestamp row_data of
        Inl e \<Rightarrow> Inl e
      | Inr (new_row, printed) \<Rightarrow>
          knex_loop fromtimestamp rows (processed_rows @ [new_row], out @ printed))"

definition knex_timestamp_conversion ::
  "(int \<Rightarrow> ts_result) \<Rightarrow> row list \<Rightarrow> py_error + (row list \<times> string list)" where
  "knex_timestamp_conversion fromtimestamp rows = knex_loop fromtimestamp rows ([], [])"

subsection \<open>A platform: 64-bit Linux in the time zone UTC\<close>

definition pad2 :: "int \<Rightarrow> string" where
  "pad2 n = (if n < 10 then ''0'' @ str_int n else str_int n)"

text \<open>The proleptic Gregorian date of a day counted from 1970-01-01: year, month, day.\<close>

definition civil_from_days :: "int \<Rightarrow> int \<times> int \<times> int" where
  "civil_from_days days =
     (let z = days + 719468;
          era = z div 146097;
          doe = z - era * 146097;
          yoe = (doe - doe div 1460 + doe div 36524 - doe div 146096) div 365;
          doy = doe - (365 * yoe + yoe div 4 - yoe div 100);
          mp = (5 * doy + 2) div 153;
          d = doy - (153 * mp + 2) div 5 + 1;
          m = (if mp < 10 then mp + 3 else mp - 9);
          y = yoe + era * 400 + (if m \<le> 2 then 1 else 0)
      in (y, m, d))"

text \<open>
  On this platform \<open>fromtimestamp\<close> raises \<open>OverflowError\<close> for a timestamp that does not
  fit the 64-bit \<open>time_t\<close>, \<open>OSError\<close> when the year does not fit the C \<open>tm\<close>, and
  \<open>ValueError\<close> for a year outside 1 to 9999.
\<close>

definition utc_fromtimestamp :: "int \<Rightarrow> ts_result" where
  "utc_fromtimestamp t =
     (if t < - (2 ^ 63) \<or> 2 ^ 63 \<le> t then Overflows
      else
        (case civil_from_days (t div 86400) of
           (y, m, d) \<Rightarrow>
             if y - 1900 < - (2 ^ 31) \<or> 2 ^ 31 \<le> y - 1900
             then Fails ''[Errno 75] Value too large for defined data type''
             else if y < 1 \<or> 9999 < y then Fails (''year '' @ str_int y @ '' is out of range'')
             else
               (let s = t mod 86400 in
                Formatted (str_int y @ ''-'' @ pad2 m @ ''-'' @ pad2 d @ '' '' @
                           pad2 (s div 3600) @ '':'' @ pad2 (s mod 3600 div 60) @ '':'' @
                           pad2 (s mod 60)))))"

section \<open>Copying the rows\<close>

text \<open>
  The calls made on the target connection, in order. The answers of the connection during
  one run are functions of the row at which a batch starts: the \<open>mysql.connector.Error\<close>,
  if any, raised by \<open>executemany\<close> and by \<open>commit\<close> for that batch. \<open>rollback\<close> returns.
\<close>

datatype db_call = Executemany string "row list" | Commit | Rollback

record mysql =
  executemany_error :: "nat \<Rightarrow> string option"
  commit_error :: "nat \<Rightarrow> string option"

definition batch_size :: nat where
  "batch_size = 1000"

definition batch_error_line :: "string \<Rightarrow> nat \<Rightarrow> string \<Rightarrow> string" where
  "batch_error_line table_name i err =
     ''Error inserting data into `'' @ table_name @ ''` (batch '' @ str_int (int (i div batch_size)) @
     '', starting row '' @ str_int (int i) @ ''): '' @ err"

text \<open>
  The loop \<open>for i in range(0, len(rows), batch_size)\<close>, from row \<open>i\<close> on: the number of
  successful batches, the calls made and the lines printed.
\<close>

function copy_batches ::
  "mysql \<Rightarrow> string \<Rightarrow> string \<Rightarrow> row list \<Rightarrow> nat \<Rightarrow> nat \<times> db_call list \<times> string list \<Rightarrow>
   nat \<times> db_call list \<times> string list" where
  "copy_batches db table_name insert_stmt rows i (successful_batches, calls, out) =
     (if i < length rows then
        (let batch = take batch_size (drop i rows) in
         case executemany_error db i of
           Some err \<Rightarrow>
             copy_batches db table_name insert_stmt rows (i + batch_size)
               (successful_batches,
                calls @ [Executemany insert_stmt batch, Rollback],
                out @ [batch_error_line table_name i err])
         | None \<Rightarrow>
             (case commit_error db i of
                Some err \<Rightarrow>
                  copy_batches db table_name insert_stmt rows (i + batch_size)
                    (successful_batches,
                     calls @ [Executemany insert_stmt batch, Commit, Rollback],
                     out @ [batch_error_line table_name i err])
              | None \<Rightarrow>
                  copy_batches db table_name insert_stmt rows (i + batch_size)
                    (successful_batches + 1,
                     calls @ [Executemany insert_stmt batch, Commit],
                     out)))
      else (successful_batches, calls, out))"
  by pat_completeness auto

termination
  by (relation "measure (\<lambda>(db, table_name, insert_stmt, rows, i, acc). length rows - i)")
    (auto simp: batch_size_def)

declare copy_batches.simps [simp del]

text \<open>
  \<open>copy_rows\<close>, given the rows fetched from the source table and the column names that
  \<open>PRAGMA table_info\<close> lists: the calls made on the target connection and the lines
  printed, or the exception that leaves the function.
\<close>

definition copy_rows ::
  "(int \<Rightarrow> ts_result) \<Rightarrow> mysql \<Rightarrow> row list \<Rightarrow> string list \<Rightarrow> string \<Rightarrow> string \<Rightarrow>
   py_error + (db_call list \<times> string list)" where
  "copy_rows fromtimestamp db fetched original_col_names table_name escaped_table_name =
     (if fetched \<noteq> [] then
        (case (if table_name = ''knex_migrations''
               then knex_timestamp_conversion fromtimestamp fetched
               else Inr (fetched, [])) of
           Inl e \<Rightarrow> Inl e
         | Inr (rows, out0) \<Rightarrow>
             (let placeholders = join '','' (replicate (length original_col_names) ''%s'');
                  insert_stmt =
                    ''INSERT IGNORE INTO '' @ escaped_table_name @ '' ('' @
                    join '','' (map (\<lambda>col. ''`'' @ col @ ''`'') original_col_names) @ '') '' @
                    ''VALUES ('' @ placeholders @ '')'';
                  out1 =
                    out0 @
                    [''Copying '' @ str_int (int (length rows)) @ '' rows to `'' @ table_name @
                     ''` using: '' @ insert_stmt]
              in case copy_batches db table_name insert_stmt rows 0 (0, [], out1) of
                   (successful_batches, calls, out2) \<Rightarrow>
                     Inr (calls,
                          out2 @
                          [''Successfully processed '' @ str_int (int successful_batches) @
                           '' batches out of '' @
                           str_int (int ((length rows + batch_size - 1) div batch_size)) @
                           '' for table `'' @ table_name @ ''`'',
                           ''Data copied to `'' @ table_name @ ''`.''])))
      else Inr ([], [''No data to copy for table `'' @ table_name @ ''`.'']))"

section \<open>Notions used in the proofs\<close>

text \<open>
  A character is \<open>marked\<close> when it is a double quote or, in upper case, one of the letters
  \<open>C\<close>, \<open>D\<close> and \<open>U\<close>. No character of a float literal is marked, and each of the keywords
  \<open>CURRENT_TIMESTAMP\<close>, \<open>DATETIME\<close> and \<open>NULL\<close> has a marked one.
\<close>

definition marked :: "char \<Rightarrow> bool" where
  "marked c = ((of_char (ascii_upper c) :: nat) \<in> {34, 67, 68, 85})"

definition unmarked :: "string \<Rightarrow> bool" where
  "unmarked s = (\<forall>c \<in> set s. \<not> marked c)"

text \<open>
  The tests of \<open>build_default_sql\<close> for a current-timestamp alias and for a null literal.
\<close>

definition is_timestamp_alias :: "string \<Rightarrow> bool" where
  "is_timestamp_alias s =
     (let d = str_replace dq sq (upper s)
      in d = ''CURRENT_TIMESTAMP'' \<or> d = sq @ ''CURRENT_TIMESTAMP'' @ sq
         \<or> sublist (''DATETIME('' @ sq @ ''NOW'' @ sq @ '')'') d)"

definition is_null_literal :: "string \<Rightarrow> bool" where
  "is_null_literal s = (str_replace dq sq (upper s) \<in> {''NULL'', sq @ ''NULL'' @ sq})"

text \<open>
  Following the words of the specification, ``strip one layer of surrounding quote
  characters'': one quote character is removed from the start and one from the end, where
  there is one.
\<close>

definition strip_one_layer :: "string \<Rightarrow> string" where
  "strip_one_layer s =
     (let s1 = (case s of [] \<Rightarrow> [] | c # cs \<Rightarrow> if c \<in> set (sq @ dq) then cs else s)
      in if s1 \<noteq> [] \<and> last s1 \<in> set (sq @ dq) then butlast s1 else s1)"

text \<open>
  The batches of \<open>copy_rows\<close>, counted from 0: how many there are for \<open>n\<close> rows, the rows
  of batch \<open>j\<close>, whether the target accepts it, the calls made for it and the lines
  printed for it.
\<close>

definition total_batches :: "nat \<Rightarrow> nat" where
  "total_batches n = (n + batch_size - 1) div batch_size"

definition batch :: "row list \<Rightarrow> nat \<Rightarrow> row list" where
  "batch rows j = take batch_size (drop (j * batch_size) rows)"

definition batch_ok :: "mysql \<Rightarrow> nat \<Rightarrow> bool" where
  "batch_ok db j =
     (executemany_error db (j * batch_size) = None \<and> commit_error db (j * batch_size) = None)"

definition batch_calls :: "mysql \<Rightarrow> string \<Rightarrow> row list \<Rightarrow> nat \<Rightarrow> db_call list" where
  "batch_calls db insert_stmt rows j =
     Executemany insert_stmt (batch rows j) #
     (case executemany_error db (j * batch_size) of
        Some err \<Rightarrow> [Rollback]
      | None \<Rightarrow>
          (case commit_error db (j * batch_size) of
             Some err \<Rightarrow> [Commit, Rollback]
           | None \<Rightarrow> [Commit]))"

definition batch_out :: "mysql \<Rightarrow> string \<Rightarrow> nat \<Rightarrow> string list" where
  "batch_out db table_name j =
     (case executemany_error db (j * batch_size) of
        Some err \<Rightarrow> [batch_error_line table_name (j * batch_size) err]
      | None \<Rightarrow>
          (case commit_error db (j * batch_size) of
             Some err \<Rightarrow> [batch_error_line table_name (j * batch_size) err]
           | None \<Rightarrow> []))"

definition insert_statement :: "string \<Rightarrow> string list \<Rightarrow> string" where
  "insert_statement escaped_table_name original_col_names =
     ''INSERT IGNORE INTO '' @ escaped_table_name @ '' ('' @
     join '','' (map (\<lambda>col. ''`'' @ col @ ''`'') original_col_names) @ '') '' @
     ''VALUES ('' @ join '','' (replicate (length original_col_names) ''%s'') @ '')''"

section \<open>Facts about strings\<close>

lemma replace_from_single:
  "replace_from [a] new s = concat (map (\<lambda>c. if c = a then new else [c]) s)"
  by (induction s) auto

lemma str_replace_char:
  "str_replace [a] [b] s = map (\<lambda>c. if c = a then b else c) s"
proof -
  have "concat (map (\<lambda>c. if c = a then [b] else [c]) s) = map (\<lambda>c. if c = a then b else c) s"
    by (induction s) auto
  then show ?thesis
    by (simp add: str_replace_def replace_from_single)
qed

lemma of_char_upper:
  "(of_char (ascii_upper c) :: nat) =
     (if 97 \<le> (of_char c :: nat) \<and> (of_char c :: nat) \<le> 122 then of_char c - 32 else of_char c)"
  by (auto simp: ascii_upper_def Let_def)

lemma digit_unmarked: "is_digit c \<Longrightarrow> \<not> marked c"
  by (auto simp: is_digit_def marked_def of_char_upper Let_def)

lemma space_unmarked: "is_c_space c \<Longrightarrow> \<not> marked c"
  by (auto simp: is_c_space_def marked_def of_char_upper Let_def)

lemma punct_unmarked:
  "\<not> marked CHR ''+''" "\<not> marked CHR ''-''" "\<not> marked CHR ''.''" "\<not> marked CHR ''_''"
  "\<not> marked CHR ''e''" "\<not> marked CHR ''E''"
  by (simp_all add: marked_def of_char_upper)

lemma word_unmarked:
  assumes "upper body = w" "\<forall>c \<in> set w. (of_char c :: nat) \<notin> {34, 67, 68, 85}"
  shows "unmarked body"
  using assms by (auto simp: upper_def marked_def unmarked_def)

lemma unmarked_simps [simp]:
  "unmarked []" "unmarked (c # cs) \<longleftrightarrow> \<not> marked c \<and> unmarked cs"
  "unmarked (xs @ ys) \<longleftrightarrow> unmarked xs \<and> unmarked ys"
  by (auto simp: unmarked_def)

lemma digitpart_rest_unmarked:
  "digitpart_rest s = (ds, r) \<Longrightarrow> \<exists>pre. s = pre @ r \<and> unmarked pre"
proof (induction s arbitrary: ds r rule: digitpart_rest.induct)
  case 1
  then show ?case by simp
next
  case (2 c)
  then show ?case
    by (cases "is_digit c") (auto simp: digit_unmarked intro: exI [of _ "[c]"] exI [of _ "[]"])
next
  case (3 c d cs)
  show ?case
  proof (cases "is_digit c")
    case True
    obtain ds' r' where e: "digitpart_rest (d # cs) = (ds', r')"
      by (cases "digitpart_rest (d # cs)")
    from "3.IH"(1) [OF True e] obtain pre where "d # cs = pre @ r'" "unmarked pre"
      by blast
    moreover from "3.prems" True e have "r = r'"
      by simp
    ultimately show ?thesis
      using True by (intro exI [of _ "c # pre"]) (simp add: digit_unmarked)
  next
    case False
    show ?thesis
    proof (cases "c = CHR ''_'' \<and> is_digit d")
      case True
      obtain ds' r' where e: "digitpart_rest cs = (ds', r')"
        by (cases "digitpart_rest cs")
      from "3.IH"(2) [OF False True e] obtain pre where "cs = pre @ r'" "unmarked pre"
        by blast
      moreover from "3.prems" False True e have "r = r'"
        by simp
      ultimately show ?thesis
        using True by (intro exI [of _ "c # d # pre"]) (simp add: digit_unmarked punct_unmarked)
    next
      case no: False
      with False "3.prems" have "r = c # d # cs"
        by auto
      then show ?thesis
        by (intro exI [of _ "[]"]) simp
    qed
  qed
qed

lemma digitpart_unmarked:
  assumes "digitpart s = Some (ds, r)"
  shows "\<exists>pre. s = pre @ r \<and> unmarked pre"
proof (cases s)
  case Nil
  with assms show ?thesis by (simp add: digitpart_def)
next
  case (Cons c cs)
  obtain ds' r' where e: "digitpart_rest cs = (ds', r')"
    by (cases "digitpart_rest cs")
  from assms Cons e have d: "is_digit c" and r: "r = r'"
    by (auto simp: digitpart_def split: if_splits)
  from digitpart_rest_unmarked [OF e] obtain pre where "cs = pre @ r'" "unmarked pre"
    by blast
  then show ?thesis
    using Cons d r by (intro exI [of _ "c # pre"]) (simp add: digit_unmarked)
qed

lemma opt_sign_unmarked:
  assumes "opt_sign s = (neg, r)"
  shows "\<exists>pre. s = pre @ r \<and> unmarked pre"
proof (cases s)
  case Nil
  with assms show ?thesis by (simp add: opt_sign_def)
next
  case (Cons c cs)
  consider "c = CHR ''-''" | "c = CHR ''+''" | "c \<noteq> CHR ''-''" "c \<noteq> CHR ''+''"
    by blast
  then show ?thesis
  proof cases
    case 1
    with assms Cons show ?thesis
      by (intro exI [of _ "[c]"]) (simp add: opt_sign_def punct_unmarked)
  next
    case 2
    with assms Cons show ?thesis
      by (intro exI [of _ "[c]"]) (simp add: opt_sign_def punct_unmarked)
  next
    case 3
    with assms Cons show ?thesis
      by (intro exI [of _ "[]"]) (simp add: opt_sign_def)
  qed
qed

lemma number_unmarked:
  assumes "number s = Some (ip, fp, r)"
  shows "\<exists>pre. s = pre @ r \<and> unmarked pre"
proof (cases "digitpart s")
  case (Some a)
  then obtain ip' r1 where a: "digitpart s = Some (ip', r1)"
    by (cases a) simp
  from digitpart_unmarked [OF a] obtain p1 where p1: "s = p1 @ r1" "unmarked p1"
    by blast
  show ?thesis
  proof (cases r1)
    case Nil
    with assms a have "r = []" by (simp add: number_def)
    with p1 Nil show ?thesis by auto
  next
    case (Cons c cs)
    show ?thesis
    proof (cases "c = CHR ''.''")
      case dot: True
      show ?thesis
      proof (cases "digitpart cs")
        case None
        with assms a Cons dot have "r = cs" by (simp add: number_def)
        with p1 Cons dot show ?thesis
          by (intro exI [of _ "p1 @ [c]"]) (simp add: punct_unmarked)
      next
        case (Some b)
        then obtain fp' r2 where b: "digitpart cs = Some (fp', r2)"
          by (cases b) simp
        from digitpart_unmarked [OF b] obtain p2 where p2: "cs = p2 @ r2" "unmarked p2"
          by blast
        from assms a Cons dot b have "r = r2" by (simp add: number_def)
        with p1 p2 Cons dot show ?thesis
          by (intro exI [of _ "p1 @ [c] @ p2"]) (simp add: punct_unmarked)
      qed
    next
      case False
      with assms a Cons have "r = r1" by (simp add: number_def)
      with p1 show ?thesis by auto
    qed
  qed
next
  case None
  show ?thesis
  proof (cases s)
    case Nil
    with assms None show ?thesis by (simp add: number_def)
  next
    case (Cons c cs)
    with assms None have dot: "c = CHR ''.''"
      by (auto simp: number_def split: if_splits)
    from assms None Cons dot obtain fp' where b: "digitpart cs = Some (fp', r)"
      by (auto simp: number_def split: option.splits)
    from digitpart_unmarked [OF b] obtain p2 where "cs = p2 @ r" "unmarked p2"
      by blast
    with Cons dot show ?thesis
      by (intro exI [of _ "c # p2"]) (simp add: punct_unmarked)
  qed
qed

lemma exponent_unmarked:
  assumes "exponent s = Some e"
  shows "unmarked s"
proof (cases s)
  case Nil
  then show ?thesis by simp
next
  case (Cons c cs)
  with assms have c: "c = CHR ''e'' \<or> c = CHR ''E''"
    by (auto simp: exponent_def split: if_splits)
  obtain neg r where s: "opt_sign cs = (neg, r)"
    by (cases "opt_sign cs")
  from assms Cons c s obtain ds where d: "digitpart r = Some (ds, [])"
    by (auto simp: exponent_def split: option.splits list.splits if_splits)
  from opt_sign_unmarked [OF s] obtain p1 where "cs = p1 @ r" "unmarked p1"
    by blast
  moreover from digitpart_unmarked [OF d] have "unmarked r"
    by auto
  ultimately show ?thesis
    using Cons c by (auto simp: punct_unmarked)
qed

lemma strip_unmarked:
  assumes "unmarked (rev (dropWhile is_c_space (rev (dropWhile is_c_space s))))"
  shows "unmarked s"
proof -
  let ?t = "dropWhile is_c_space s"
  have "unmarked (takeWhile is_c_space s)"
    by (auto simp: unmarked_def space_unmarked dest: set_takeWhileD)
  moreover have "unmarked (takeWhile is_c_space (rev ?t))"
    by (auto simp: unmarked_def space_unmarked dest: set_takeWhileD)
  moreover have "set ?t = set (takeWhile is_c_space (rev ?t)) \<union> set (dropWhile is_c_space (rev ?t))"
    by (metis set_append set_rev takeWhile_dropWhile_id)
  moreover have "set s = set (takeWhile is_c_space s) \<union> set ?t"
    by (metis set_append takeWhile_dropWhile_id)
  ultimately show ?thesis
    using assms by (auto simp: unmarked_def)
qed

lemma py_float_unmarked:
  assumes "py_float s = Some v"
  shows "unmarked s"
proof -
  let ?t = "rev (dropWhile is_c_space (rev (dropWhile is_c_space s)))"
  obtain neg body where s: "opt_sign ?t = (neg, body)"
    by (cases "opt_sign ?t")
  from opt_sign_unmarked [OF s] obtain p0 where p0: "?t = p0 @ body" "unmarked p0"
    by blast
  have "unmarked body"
  proof (cases "upper body = ''INF'' \<or> upper body = ''INFINITY'' \<or> upper body = ''NAN''")
    case True
    then show ?thesis
      by (elim disjE) (erule word_unmarked, simp)+
  next
    case False
    with assms s obtain ip fp r where n: "number body = Some (ip, fp, r)"
      by (auto simp: py_float_def split: option.splits)
    with assms s False obtain e where e: "exponent r = Some e"
      by (auto simp: py_float_def split: option.splits)
    from number_unmarked [OF n] exponent_unmarked [OF e] show ?thesis
      by auto
  qed
  with p0 have "unmarked ?t"
    by simp
  then show ?thesis
    by (rule strip_unmarked)
qed

section \<open>Facts about default values\<close>

lemma unmarked_no_dq: "unmarked s \<Longrightarrow> str_replace dq sq (upper s) = upper s"
proof -
  assume u: "unmarked s"
  have "\<forall>c \<in> set (upper s). c \<noteq> CHR 0x22"
  proof
    fix c assume "c \<in> set (upper s)"
    then obtain d where d: "d \<in> set s" "c = ascii_upper d"
      by (auto simp: upper_def)
    with u have "(of_char c :: nat) \<noteq> 34"
      by (auto simp: unmarked_def marked_def)
    then show "c \<noteq> CHR 0x22" by auto
  qed
  then show ?thesis
    by (simp add: str_replace_char map_idI)
qed

lemma unmarked_upper_free:
  assumes "unmarked s" "c \<in> set (upper s)"
  shows "(of_char c :: nat) \<notin> {34, 67, 68, 85}"
  using assms by (auto simp: unmarked_def marked_def upper_def)

lemma unmarked_not_keyword:
  assumes "unmarked s" "sublist w (upper s)" "k \<in> set w" "(of_char k :: nat) \<in> {34, 67, 68, 85}"
  shows False
proof -
  from assms(2,3) have "k \<in> set (upper s)"
    using set_mono_sublist by blast
  with assms(1,4) show False
    using unmarked_upper_free by blast
qed

lemma float_not_special:
  assumes "py_float s = Some v"
  shows "str_replace dq sq (upper s) = upper s"
    and "upper s \<noteq> ''CURRENT_TIMESTAMP''"
    and "upper s \<noteq> sq @ ''CURRENT_TIMESTAMP'' @ sq"
    and "\<not> sublist (''DATETIME('' @ sq @ ''NOW'' @ sq @ '')'') (upper s)"
    and "upper s \<noteq> ''NULL''"
    and "upper s \<noteq> sq @ ''NULL'' @ sq"
proof -
  have u: "unmarked s"
    using assms by (rule py_float_unmarked)
  show "str_replace dq sq (upper s) = upper s"
    using u by (rule unmarked_no_dq)
  have k: "\<And>w. sublist w (upper s) \<Longrightarrow> CHR ''C'' \<in> set w \<or> CHR ''U'' \<in> set w \<or> CHR ''D'' \<in> set w \<Longrightarrow> False"
    using unmarked_not_keyword [OF u] by fastforce
  show "upper s \<noteq> ''CURRENT_TIMESTAMP''"
    using k [of "''CURRENT_TIMESTAMP''"] by auto
  show "upper s \<noteq> sq @ ''CURRENT_TIMESTAMP'' @ sq"
    using k [of "sq @ ''CURRENT_TIMESTAMP'' @ sq"] by auto
  show "\<not> sublist (''DATETIME('' @ sq @ ''NOW'' @ sq @ '')'') (upper s)"
    using k [of "''DATETIME('' @ sq @ ''NOW'' @ sq @ '')''"] by auto
  show "upper s \<noteq> ''NULL''"
    using k [of "''NULL''"] by auto
  show "upper s \<noteq> sq @ ''NULL'' @ sq"
    using k [of "sq @ ''NULL'' @ sq"] by auto
qed

lemma replace_TINYINT: "str_replace ''TINYINT'' ''SMALLINT'' ''TINYINT'' = ''SMALLINT''"
  by code_simp

lemma py_float_200: "py_float ''200'' = Some (Finite 200)"
  by code_simp

lemma rev_dropWhile_rev:
  "xs = rev (dropWhile P (rev xs)) @ rev (takeWhile P (rev xs))"
  by (metis rev_append rev_rev_ident takeWhile_dropWhile_id)

lemma strip_chars_split:
  "\<exists>pre post. s = pre @ strip_chars chars s @ post \<and> set pre \<subseteq> set chars \<and> set post \<subseteq> set chars"
proof -
  let ?P = "\<lambda>c. c \<in> set chars"
  let ?t = "dropWhile ?P s"
  have 1: "s = takeWhile ?P s @ ?t"
    by simp
  have 2: "?t = strip_chars chars s @ rev (takeWhile ?P (rev ?t))"
    unfolding strip_chars_def by (rule rev_dropWhile_rev)
  have 3: "set (takeWhile ?P s) \<subseteq> set chars"
    by (auto dest: set_takeWhileD)
  have 4: "set (rev (takeWhile ?P (rev ?t))) \<subseteq> set chars"
    by (auto dest: set_takeWhileD)
  from 1 2 have "s = takeWhile ?P s @ strip_chars chars s @ rev (takeWhile ?P (rev ?t))"
    by simp
  with 3 4 show ?thesis
    by blast
qed

lemma strip_chars_ends:
  assumes "strip_chars chars s \<noteq> []"
  shows "hd (strip_chars chars s) \<notin> set chars" and "last (strip_chars chars s) \<notin> set chars"
proof -
  let ?P = "\<lambda>c. c \<in> set chars"
  let ?t = "dropWhile ?P s"
  let ?u = "dropWhile ?P (rev ?t)"
  from assms have u: "?u \<noteq> []"
    by (simp add: strip_chars_def)
  then have t: "?t \<noteq> []"
    by (metis dropWhile.simps(1) rev.simps(1))
  have "last (strip_chars chars s) = hd ?u"
    using u by (simp add: strip_chars_def last_rev)
  then show "last (strip_chars chars s) \<notin> set chars"
    using hd_dropWhile [OF u] by simp
  have "?t = strip_chars chars s @ rev (takeWhile ?P (rev ?t))"
    unfolding strip_chars_def by (rule rev_dropWhile_rev)
  then have "hd ?t = hd (strip_chars chars s)"
    using assms by (metis hd_append2)
  then show "hd (strip_chars chars s) \<notin> set chars"
    using hd_dropWhile [OF t] by simp
qed

lemma upper_eq_imp_alias:
  assumes "upper s = ''CURRENT_TIMESTAMP'' \<or>
           upper s = sq @ ''CURRENT_TIMESTAMP'' @ sq \<or>
           upper s = dq @ ''CURRENT_TIMESTAMP'' @ dq \<or>
           sublist (''DATETIME('' @ sq @ ''NOW'' @ sq @ '')'') (upper s) \<or>
           sublist (''DATETIME('' @ dq @ ''NOW'' @ dq @ '')'') (upper s)"
  shows "is_timestamp_alias s"
proof -
  let ?f = "\<lambda>c. if c = CHR 0x22 then CHR 0x27 else c"
  have d: "str_replace dq sq (upper s) = map ?f (upper s)"
    by (rule str_replace_char)
  from assms consider
      (a) "upper s = ''CURRENT_TIMESTAMP''"
    | (b) "upper s = sq @ ''CURRENT_TIMESTAMP'' @ sq"
    | (c) "upper s = dq @ ''CURRENT_TIMESTAMP'' @ dq"
    | (d) "sublist (''DATETIME('' @ sq @ ''NOW'' @ sq @ '')'') (upper s)"
    | (e) "sublist (''DATETIME('' @ dq @ ''NOW'' @ dq @ '')'') (upper s)"
    by blast
  then show ?thesis
  proof cases
    case a
    then show ?thesis by (simp add: is_timestamp_alias_def str_replace_char)
  next
    case b
    then show ?thesis by (simp add: is_timestamp_alias_def str_replace_char)
  next
    case c
    then show ?thesis by (simp add: is_timestamp_alias_def str_replace_char)
  next
    case d
    from map_mono_sublist [OF this, of ?f] show ?thesis
      by (simp add: is_timestamp_alias_def str_replace_char)
  next
    case e
    from map_mono_sublist [OF this, of ?f] show ?thesis
      by (simp add: is_timestamp_alias_def str_replace_char)
  qed
qed

section \<open>Facts about the type mapping\<close>

lemma str_int_INDEXED: "str_int INDEXED_VARCHAR_MAX = ''191''"
  by code_simp

lemma sublist_trans: "sublist a b \<Longrightarrow> sublist b c \<Longrightarrow> sublist a c"
  by (rule sublist_order.order_trans)

lemma integer_key_has_INT: "key \<in> set (map fst INTEGER_TYPES) \<Longrightarrow> sublist ''INT'' key"
  unfolding INTEGER_TYPES_def by (auto simp: sublist_code)

lemma map_integer_type_eq:
  "map_integer_type u =
     (if sublist ''TINYINT'' u then Some ''TINYINT''
      else if sublist ''SMALLINT'' u then Some ''SMALLINT''
      else if sublist ''MEDIUMINT'' u then Some ''MEDIUMINT''
      else if sublist ''BIGINT'' u then Some ''BIGINT UNSIGNED''
      else if sublist ''INT'' u then Some ''INT UNSIGNED''
      else None)"
  by (simp add: map_integer_type_def INTEGER_TYPES_def)

section \<open>Facts about column definitions\<close>

lemma strip_id:
  assumes "s \<noteq> []" "\<not> is_space (hd s)" "\<not> is_space (last s)"
  shows "strip s = s"
proof -
  have 1: "dropWhile is_space s = s"
    using assms(2) by (simp add: dropWhile_eq_self_iff)
  have "hd (rev s) = last s"
    using assms(1) by (simp add: hd_rev)
  then have 2: "dropWhile is_space (rev s) = rev s"
    using assms(3) by (simp add: dropWhile_eq_self_iff)
  show ?thesis
    by (simp add: strip_def 1 2)
qed

lemma not_space_backtick: "\<not> is_space CHR 0x60"
  by code_simp

lemma not_space_T: "\<not> is_space CHR ''T''"
  by code_simp

lemma rendered_not_null:
  "strip (''`'' @ n @ ''` '' @ ty @ '' NOT NULL'' @ d @ '' AUTO_INCREMENT'') =
     (''`'' @ n @ ''` '' @ ty) @ '' NOT NULL'' @ (d @ '' AUTO_INCREMENT'')"
  by (subst strip_id) (simp_all add: not_space_backtick not_space_T)

lemma process_columns_keys:
  "fst (snd (process_columns indexes index_info col table_name col_defs pk_col_names primary_keys)) =
     (if pk col = 1 then primary_keys @ [''`'' @ name col @ ''`''] else primary_keys)"
  by (simp add: process_columns_def Let_def split: prod.splits)

text \<open>The names listed in the PRIMARY KEY clause are those of the columns whose field is 1.\<close>

lemma process_all_columns_keys:
  "fst (snd (process_all_columns indexes index_info table_name pk_col_names columns
               (col_defs, primary_keys, out))) =
     primary_keys @ map (\<lambda>col. ''`'' @ name col @ ''`'') (filter (\<lambda>col. pk col = 1) columns)"
proof (induction columns arbitrary: col_defs primary_keys out)
  case Nil
  then show ?case by simp
next
  case (Cons col columns)
  obtain cd pks pr where p:
    "process_columns indexes index_info col table_name col_defs pk_col_names primary_keys =
       (cd, pks, pr)"
    by (cases "process_columns indexes index_info col table_name col_defs pk_col_names
                 primary_keys")
  from process_columns_keys [of indexes index_info col table_name col_defs pk_col_names
      primary_keys] p
  have k: "pks = (if pk col = 1 then primary_keys @ [''`'' @ name col @ ''`''] else primary_keys)"
    by simp
  show ?case
    using Cons.IH [of cd pks "out @ pr"] by (simp add: p k)
qed

section \<open>Facts about the batches\<close>

lemma batch_index_less: "j < total_batches n \<longleftrightarrow> j * batch_size < n"
  unfolding total_batches_def batch_size_def by (simp add: less_mult_imp_div_less) arith

lemma copy_batches_from:
  assumes "m \<le> total_batches (length rows)"
  shows "copy_batches db table_name insert_stmt rows (m * batch_size) (s, calls, out) =
           (s + length (filter (batch_ok db) [m..<total_batches (length rows)]),
            calls @ concat (map (batch_calls db insert_stmt rows) [m..<total_batches (length rows)]),
            out @ concat (map (batch_out db table_name) [m..<total_batches (length rows)]))"
  using assms
proof (induction "total_batches (length rows) - m" arbitrary: m s calls out)
  case 0
  then have m: "m = total_batches (length rows)"
    by simp
  then have "\<not> m * batch_size < length rows"
    using batch_index_less [of m "length rows"] by simp
  then show ?case
    by (subst copy_batches.simps) (simp add: m)
next
  case (Suc k)
  then have lt: "m < total_batches (length rows)"
    by simp
  then have i: "m * batch_size < length rows"
    by (simp add: batch_index_less)
  have up: "[m..<total_batches (length rows)] = m # [Suc m..<total_batches (length rows)]"
    using lt by (simp add: upt_conv_Cons)
  have next_i: "m * batch_size + batch_size = Suc m * batch_size"
    by simp
  have ih: "\<And>s calls out. copy_batches db table_name insert_stmt rows (Suc m * batch_size) (s, calls, out) =
           (s + length (filter (batch_ok db) [Suc m..<total_batches (length rows)]),
            calls @ concat (map (batch_calls db insert_stmt rows) [Suc m..<total_batches (length rows)]),
            out @ concat (map (batch_out db table_name) [Suc m..<total_batches (length rows)]))"
    using Suc.hyps(1) [of "Suc m"] Suc.hyps(2) lt by simp
  show ?case
  proof (cases "executemany_error db (m * batch_size)")
    case (Some err)
    then show ?thesis
      using i
      by (subst copy_batches.simps)
        (simp add: next_i ih up batch_ok_def batch_calls_def batch_out_def batch_def Let_def
          del: mult_Suc)
  next
    case None
    show ?thesis
    proof (cases "commit_error db (m * batch_size)")
      case (Some err)
      then show ?thesis
        using i None
        by (subst copy_batches.simps)
          (simp add: next_i ih up batch_ok_def batch_calls_def batch_out_def batch_def Let_def
            del: mult_Suc)
    next
      case ok: None
      then show ?thesis
        using i None
        by (subst copy_batches.simps)
          (simp add: next_i ih up batch_ok_def batch_calls_def batch_out_def batch_def Let_def
            del: mult_Suc)
    qed
  qed
qed

lemma one_failure_count:
  assumes "k < T" "\<not> P k" "\<forall>j < T. j \<noteq> k \<longrightarrow> P j"
  shows "length (filter P [0..<T]) = T - 1"
proof -
  have "[0..<T] = [0..<k] @ k # [Suc k..<T]"
    using assms(1) by (metis le_add1 less_imp_add_positive upt_add_eq_append upt_conv_Cons
        plus_nat.add_0)
  moreover have "filter P [0..<k] = [0..<k]"
    using assms(1,3) by (auto simp: filter_id_conv)
  moreover have "filter P [Suc k..<T] = [Suc k..<T]"
    using assms(3) by (auto simp: filter_id_conv)
  ultimately show ?thesis
    using assms(1,2) by simp
qed

lemma concat_batches_from:
  assumes "m \<le> total_batches (length rows)"
  shows "concat (map (batch rows) [m..<total_batches (length rows)]) = drop (m * batch_size) rows"
  using assms
proof (induction "total_batches (length rows) - m" arbitrary: m)
  case 0
  then have m: "m = total_batches (length rows)"
    by simp
  then have "\<not> m * batch_size < length rows"
    using batch_index_less [of m "length rows"] by simp
  then show ?case
    by (simp add: m)
next
  case (Suc k)
  then have lt: "m < total_batches (length rows)"
    by simp
  have up: "[m..<total_batches (length rows)] = m # [Suc m..<total_batches (length rows)]"
    using lt by (simp add: upt_conv_Cons)
  have ih: "concat (map (batch rows) [Suc m..<total_batches (length rows)]) =
              drop (Suc m * batch_size) rows"
    using Suc.hyps(1) [of "Suc m"] Suc.hyps(2) lt by simp
  have "drop (Suc m * batch_size) rows = drop batch_size (drop (m * batch_size) rows)"
    by (simp add: add.commute)
  then show ?case
    by (simp add: up ih batch_def del: mult_Suc drop_drop)
qed

lemma concat_batches:
  "concat (map (batch rows) [0..<total_batches (length rows)]) = rows"
  using concat_batches_from [of 0 rows] by simp

lemma batch_length:
  assumes "j < total_batches (length rows)"
  shows "batch rows j \<noteq> []" and "length (batch rows j) \<le> batch_size"
  using assms by (simp_all add: batch_def batch_index_less batch_size_def)

lemma full_batch_length:
  assumes "Suc j < total_batches (length rows)"
  shows "length (batch rows j) = batch_size"
proof -
  from assms have "Suc j * batch_size < length rows"
    by (simp add: batch_index_less)
  then show ?thesis
    by (simp add: batch_def)
qed

lemma knex_loop_length:
  "knex_loop f rows (acc, out) = Inr (rows', out') \<Longrightarrow> length rows' = length acc + length rows"
proof (induction rows arbitrary: acc out)
  case Nil
  then show ?case by simp
next
  case (Cons r rows)
  then show ?case
    by (cases "convert_row f r") (auto split: prod.splits)
qed

lemma one_failure_out:
  assumes "k < T" "\<forall>j < T. j \<noteq> k \<longrightarrow> g j = []"
  shows "concat (map g [0..<T]) = g k"
proof -
  have "[0..<T] = [0..<k] @ k # [Suc k..<T]"
    using assms(1) by (metis le_add1 less_imp_add_positive upt_add_eq_append upt_conv_Cons
        plus_nat.add_0)
  then have c: "map g [0..<T] = map g [0..<k] @ g k # map g [Suc k..<T]"
    by simp
  have a: "concat (map g [0..<k]) = []"
    using assms by auto
  have b: "concat (map g [Suc k..<T]) = []"
    using assms by auto
  show ?thesis
    unfolding c by (simp add: a b)
qed

lemma copy_rows_unfold:
  "copy_rows fromtimestamp db fetched original_col_names table_name escaped_table_name =
     (if fetched \<noteq> [] then
        (case (if table_name = ''knex_migrations''
               then knex_timestamp_conversion fromtimestamp fetched
               else Inr (fetched, [])) of
           Inl e \<Rightarrow> Inl e
         | Inr (rows, out0) \<Rightarrow>
             (case copy_batches db table_name
                     (insert_statement escaped_table_name original_col_names) rows 0
                     (0, [],
                      out0 @
                      [''Copying '' @ str_int (int (length rows)) @ '' rows to `'' @ table_name @
                       ''` using: '' @ insert_statement escaped_table_name original_col_names]) of
                (successful_batches, calls, out2) \<Rightarrow>
                  Inr (calls,
                       out2 @
                       [''Successfully processed '' @ str_int (int successful_batches) @
                        '' batches out of '' @ str_int (int (total_batches (length rows))) @
                        '' for table `'' @ table_name @ ''`'',
                        ''Data copied to `'' @ table_name @ ''`.''])))
      else Inr ([], [''No data to copy for table `'' @ table_name @ ''`.'']))"
  unfolding copy_rows_def insert_statement_def total_batches_def Let_def by (rule refl)

section \<open>Facts about the timestamp conversion\<close>

lemma convert_row_frame:
  assumes "convert_row f r = Inr (r', printed)"
  shows "length r' = length r"
    and "j \<noteq> 3 \<Longrightarrow> r' ! j = r ! j"
    and "length r < 4 \<or> epoch_of (r ! 3) = None \<Longrightarrow> r' = r"
  using assms
  by (auto simp: convert_row_def Let_def split: if_splits option.splits ts_result.splits)

lemma convert_row_cases:
  "convert_row f r = Inl OverflowError \<or> (\<exists>r' printed. convert_row f r = Inr (r', printed))"
  by (cases "convert_row f r") (auto intro: py_error.exhaust)

lemma knex_loop_rows:
  assumes "\<forall>r \<in> set rows. convert_row f r \<noteq> Inl OverflowError"
  shows "\<exists>out'. knex_loop f rows (acc, out) =
           Inr (acc @ map (\<lambda>r. fst (projr (convert_row f r))) rows, out')"
  using assms
proof (induction rows arbitrary: acc out)
  case Nil
  then show ?case by simp
next
  case (Cons r rows)
  from Cons.prems convert_row_cases [of f r] obtain r' printed
    where c: "convert_row f r = Inr (r', printed)"
    by auto
  from Cons.IH [of "acc @ [r']" "out @ printed"] Cons.prems
  obtain out' where
    "knex_loop f rows (acc @ [r'], out @ printed) =
       Inr ((acc @ [r']) @ map (\<lambda>r. fst (projr (convert_row f r))) rows, out')"
    by auto
  then show ?case
    by (simp add: c)
qed

text \<open>
  When no conversion raises \<open>OverflowError\<close>, the timestamp conversion returns one row for
  each row given, in the same order; a row keeps its length and all its fields but the
  fourth, and it is returned as it is when it has fewer than four fields or its fourth
  field does not pass the guard.
\<close>

lemma knex_rows_frame:
  assumes "\<forall>r \<in> set rows. convert_row f r \<noteq> Inl OverflowError"
  shows "\<exists>rows' out. knex_timestamp_conversion f rows = Inr (rows', out) \<and>
           length rows' = length rows \<and>
           (\<forall>i < length rows.
              length (rows' ! i) = length (rows ! i) \<and>
              (\<forall>j. j \<noteq> 3 \<longrightarrow> rows' ! i ! j = rows ! i ! j) \<and>
              (length (rows ! i) < 4 \<or> epoch_of (rows ! i ! 3) = None \<longrightarrow> rows' ! i = rows ! i))"
proof -
  let ?g = "\<lambda>r. fst (projr (convert_row f r))"
  from knex_loop_rows [OF assms, of "[]" "[]"] obtain out where
    k: "knex_timestamp_conversion f rows = Inr (map ?g rows, out)"
    by (auto simp: knex_timestamp_conversion_def)
  have "length (?g (rows ! i)) = length (rows ! i) \<and>
        (\<forall>j. j \<noteq> 3 \<longrightarrow> ?g (rows ! i) ! j = rows ! i ! j) \<and>
        (length (rows ! i) < 4 \<or> epoch_of (rows ! i ! 3) = None \<longrightarrow> ?g (rows ! i) = rows ! i)"
    if "i < length rows" for i
  proof -
    from that assms have "convert_row f (rows ! i) \<noteq> Inl OverflowError"
      by simp
    with convert_row_cases [of f "rows ! i"] obtain r' printed
      where c: "convert_row f (rows ! i) = Inr (r', printed)"
      by auto
    from convert_row_frame [OF c] show ?thesis
      by (simp add: c)
  qed
  with k show ?thesis
    by simp
qed

text \<open>
  A value above the threshold is divided by 1000 before it is formatted, so a number of
  seconds between 4000001 and 4000000000 and the same instant in milliseconds give the
  same row.
\<close>

lemma milliseconds_as_seconds:
  assumes "4000000 < s" "s \<le> 4000000000" "3 < length r"
    and "epoch_of v = Some (text, s)" "epoch_of v' = Some (text', 1000 * s)"
    and "f s = Formatted t"
  shows "convert_row f (r[3 := v]) = Inr (r[3 := PStr t], [])"
    and "convert_row f (r[3 := v']) = Inr (r[3 := PStr t], [])"
  using assms by (simp_all add: convert_row_def)

text \<open>
  When the conversion raises \<open>ValueError\<close> or \<open>OSError\<close>, the field is set to \<open>None\<close>, a
  warning is printed and the row is kept.
\<close>

lemma caught_failure_nulls_field:
  assumes "3 < length r" "epoch_of (r ! 3) = Some (text, n)"
    and "f (if 4000000000 < n then n div 1000 else n) = Fails e"
  shows "convert_row f r =
           Inr (r[3 := PNone], [''Warning: Could not convert timestamp '' @ text @ '': '' @ e])"
  using assms by (simp add: convert_row_def)

text \<open>
  An \<open>OverflowError\<close> is not caught: when the conversion of one row raises it, the
  timestamp conversion as a whole raises it and returns no row.
\<close>

lemma knex_loop_overflow:
  assumes "r \<in> set rows" "convert_row f r = Inl OverflowError"
  shows "knex_loop f rows (acc, out) = Inl OverflowError"
  using assms
proof (induction rows arbitrary: acc out)
  case Nil
  then show ?case by simp
next
  case (Cons a rows)
  show ?case
  proof (cases "convert_row f a")
    case (Inl e)
    then show ?thesis
      by (cases e) simp
  next
    case (Inr p)
    with Cons.prems have "r \<in> set rows"
      by auto
    with Cons.IH Cons.prems(2) Inr show ?thesis
      by (cases p) simp
  qed
qed

lemma overflow_not_caught:
  assumes "r \<in> set rows" "3 < length r" "epoch_of (r ! 3) = Some (text, n)"
    and "f (if 4000000000 < n then n div 1000 else n) = Overflows"
  shows "knex_timestamp_conversion f rows = Inl OverflowError"
proof -
  from assms(2-4) have "convert_row f r = Inl OverflowError"
    by (simp add: convert_row_def)
  with assms(1) show ?thesis
    unfolding knex_timestamp_conversion_def by (rule knex_loop_overflow)
qed

text \<open>
  On the platform modelled, the seconds \<open>1700000000\<close> and the milliseconds
  \<open>1700000000000\<close> give the same text of the year 2023, and a year out of range gives
  \<open>None\<close> with a warning.
\<close>

lemma seconds_and_milliseconds_2023:
  "knex_timestamp_conversion utc_fromtimestamp
     [[PInt 1, PStr ''a.js'', PInt 1, PInt 1700000000],
      [PInt 2, PStr ''b.js'', PInt 1, PInt 1700000000000],
      [PInt 3, PStr ''c.js'', PInt 1, PStr ''1700000000000''],
      [PInt 4, PStr ''d.js'', PInt 1, PStr ''1000000000000000'']] =
   Inr ([[PInt 1, PStr ''a.js'', PInt 1, PStr ''2023-11-14 22:13:20''],
         [PInt 2, PStr ''b.js'', PInt 1, PStr ''2023-11-14 22:13:20''],
         [PInt 3, PStr ''c.js'', PInt 1, PStr ''2023-11-14 22:13:20''],
         [PInt 4, PStr ''d.js'', PInt 1, PNone]],
        [''Warning: Could not convert timestamp 1000000000000000: year 33658 is out of range''])"
  by code_simp

section \<open>Claims about column definitions\<close>

text \<open>
  Claim C1, as amended. For every column whose primary-key field is 1 and whose mapped type
  contains \<open>INT\<close>, the column definition rendered by \<open>process_columns\<close> contains the clause
  \<open>NOT NULL\<close>, whatever the not-null flag of the source, and the warning is printed when
  that flag is 0.
\<close>

theorem pk_integer_not_null:
  assumes "pk col = 1"
    and "sublist ''INT''
           (fst (map_sqlite_to_mysql_type (ctype col) (name col \<in> pk_col_names)
                  (unique_index_loop index_info (name col) indexes)))"
  shows "case process_columns indexes index_info col table_name col_defs pk_col_names
                primary_keys of
           (col_defs', primary_keys', out) \<Rightarrow>
             sublist '' NOT NULL'' (col_defs' ! length col_defs) \<and>
             (notnull col = 0 \<longrightarrow>
                ''Warning: Primary key '' @ sq @ name col @ sq @ '' in table '' @ sq @
                table_name @ sq @ '' is NULLABLE'' @ replicate 17 CHR '' '' @
                ''in SQLite. MySQL AUTO_INCREMENT implies NOT NULL.'' \<in> set out)"
proof -
  obtain ty out1 where m:
    "map_sqlite_to_mysql_type (ctype col) (name col \<in> pk_col_names)
       (unique_index_loop index_info (name col) indexes) = (ty, out1)"
    by (cases "map_sqlite_to_mysql_type (ctype col) (name col \<in> pk_col_names)
       (unique_index_loop index_info (name col) indexes)")
  with assms(2) have int: "sublist ''INT'' ty"
    by simp
  obtain d ty' out3 where b:
    "build_default_sql (dflt_value col) ty table_name (name col) = ((d, ty'), out3)"
    by (cases "build_default_sql (dflt_value col) ty table_name (name col)") auto
  have s: "sublist '' NOT NULL''
             (strip (''`'' @ name col @ ''` '' @ ty' @ '' NOT NULL'' @ d @ '' AUTO_INCREMENT''))"
    unfolding rendered_not_null by (rule sublist_appendI)
  show ?thesis
    using assms(1) int s
    by (simp add: process_columns_def m b set_ai_nns_def Let_def nth_append)
qed

theorem pk_integer_not_null_witness:
  "pk \<lparr>cid = 0, name = ''id'', ctype = ''INTEGER'', notnull = 0, dflt_value = None, pk = 1\<rparr> = 1 \<and>
   process_columns [] (\<lambda>i. [])
     \<lparr>cid = 0, name = ''id'', ctype = ''INTEGER'', notnull = 0, dflt_value = None, pk = 1\<rparr>
     ''t'' [] {''id''} [] =
     ([''`id` INT UNSIGNED NOT NULL AUTO_INCREMENT''], [''`id`''],
      [''Warning: Primary key '' @ sq @ ''id'' @ sq @ '' in table '' @ sq @ ''t'' @ sq @
       '' is NULLABLE                 in SQLite. MySQL AUTO_INCREMENT implies NOT NULL.'']) \<and>
   sublist '' NOT NULL'' ''`id` INT UNSIGNED NOT NULL AUTO_INCREMENT''"
proof -
  let ?col = "\<lparr>cid = 0, name = ''id'', ctype = ''INTEGER'', notnull = 0, dflt_value = None, pk = 1\<rparr>"
  have h1: "pk ?col = 1"
    by simp
  have h2: "sublist ''INT''
           (fst (map_sqlite_to_mysql_type (ctype ?col) (name ?col \<in> {''id''})
                  (unique_index_loop (\<lambda>i. []) (name ?col) [])))"
    by code_simp
  have e: "process_columns [] (\<lambda>i. []) ?col ''t'' [] {''id''} [] =
     ([''`id` INT UNSIGNED NOT NULL AUTO_INCREMENT''], [''`id`''],
      [''Warning: Primary key '' @ sq @ ''id'' @ sq @ '' in table '' @ sq @ ''t'' @ sq @
       '' is NULLABLE                 in SQLite. MySQL AUTO_INCREMENT implies NOT NULL.''])"
    by code_simp
  from pk_integer_not_null [OF h1 h2, where table_name = "''t''" and col_defs = "[]"
      and primary_keys = "[]"] e h1 show ?thesis
    by simp
qed

text \<open>
  The claim C1 as stated fails on a nullable primary-key column of type \<open>TEXT\<close>: its
  definition has no \<open>NOT NULL\<close>, and the only line printed is about the index.
\<close>

theorem pk_text_nullable_counterexample:
  "process_columns [] (\<lambda>i. [])
     \<lparr>cid = 0, name = ''id'', ctype = ''TEXT'', notnull = 0, dflt_value = None, pk = 1\<rparr>
     ''t'' [] {''id''} [] =
     ([''`id` VARCHAR(191)''], [''`id`''],
      [''Warning: Indexed text column '' @ sq @ ''TEXT'' @ sq @
       '' mapped to VARCHAR(191) for index compatibility.'']) \<and>
   \<not> sublist '' NOT NULL'' ''`id` VARCHAR(191)''"
  by code_simp

text \<open>
  Claim C2 fails on a table with a primary key of two columns: \<open>PRAGMA table_info\<close> gives
  the columns the key positions 1 and 2, and the statement generated lists the first only.
\<close>

theorem composite_key_dropped:
  "create_stmt_of [] (\<lambda>i. []) ''t''
     [\<lparr>cid = 0, name = ''a'', ctype = ''INTEGER'', notnull = 1, dflt_value = None, pk = 1\<rparr>,
      \<lparr>cid = 1, name = ''b'', ctype = ''INTEGER'', notnull = 1, dflt_value = None, pk = 2\<rparr>] =
   Some (''CREATE TABLE IF NOT EXISTS `t` ('' @ nl @
         ''    `a` INT UNSIGNED NOT NULL AUTO_INCREMENT,'' @ nl @
         ''    `b` INT UNSIGNED NOT NULL,'' @ nl @
         ''    PRIMARY KEY (`a`)'' @ nl @
         '') ENGINE=InnoDB DEFAULT CHARSET=utf8mb4 COLLATE=utf8mb4_unicode_ci;'', [])"
  by code_simp

section \<open>Claims about the type mapping\<close>

text \<open>
  Claim C3. A declared type of the character family has one of the keywords \<open>CHAR\<close>,
  \<open>CLOB\<close>, \<open>TEXT\<close> in its upper-case form. When such a column is a primary key or unique,
  \<open>map_text_type\<close> returns \<open>VARCHAR(191)\<close> and prints the warning, whatever length the
  declaration gives or omits. Since the integer matcher is tried first, the type mapper as a
  whole returns the same for every such type that the integer matcher leaves alone, and
  never \<open>LONGTEXT\<close>. The index-safe maximum is the constant 191, below the general
  bound 255.
\<close>

theorem map_type_indexed_text:
  assumes "\<exists>k \<in> set TEXT_TYPES. sublist k (upper t)"
    and "is_primary_key \<or> is_unique"
  shows "map_text_type t is_primary_key is_unique =
           (Some ''VARCHAR(191)'',
            [''Warning: Indexed text column '' @ sq @ t @ sq @
             '' mapped to VARCHAR(191) for index compatibility.'']) \<and>
         (map_integer_type (upper t) = None \<longrightarrow>
            map_sqlite_to_mysql_type t is_primary_key is_unique =
              (''VARCHAR(191)'',
               [''Warning: Indexed text column '' @ sq @ t @ sq @
                '' mapped to VARCHAR(191) for index compatibility.'']) \<and>
            fst (map_sqlite_to_mysql_type t is_primary_key is_unique) \<noteq> ''LONGTEXT'') \<and>
         INDEXED_VARCHAR_MAX = 191 \<and> INDEXED_VARCHAR_MAX < DEFAULT_VARCHAR_MAX"
proof -
  have a: "list_ex (\<lambda>k. sublist k (upper t)) TEXT_TYPES"
    using assms(1) by (simp add: list_ex_iff)
  have b: "map_text_type t is_primary_key is_unique =
           (Some ''VARCHAR(191)'',
            [''Warning: Indexed text column '' @ sq @ t @ sq @
             '' mapped to VARCHAR(191) for index compatibility.''])"
    using a assms(2) by (simp add: map_text_type_def str_int_INDEXED)
  show ?thesis
    by (simp add: b map_sqlite_to_mysql_type_def truthy_def INDEXED_VARCHAR_MAX_def
        DEFAULT_VARCHAR_MAX_def)
qed

theorem map_type_indexed_text_witness:
  "(\<exists>k \<in> set TEXT_TYPES. sublist k (upper ''varchar(500)'')) \<and>
   map_integer_type (upper ''varchar(500)'') = None \<and>
   map_sqlite_to_mysql_type ''varchar(500)'' False True =
     (''VARCHAR(191)'',
      [''Warning: Indexed text column '' @ sq @ ''varchar(500)'' @ sq @
       '' mapped to VARCHAR(191) for index compatibility.''])"
proof -
  have h: "\<exists>k \<in> set TEXT_TYPES. sublist k (upper ''varchar(500)'')"
    by code_simp
  have n: "map_integer_type (upper ''varchar(500)'') = None"
    by code_simp
  from map_type_indexed_text [OF h, of False True] h n show ?thesis
    by simp
qed

text \<open>
  Claim C4. When the upper-case form of the declared type contains a key of
  \<open>INTEGER_TYPES\<close>, the type mapper returns the integer type of the first key, in the order
  of the table, that the type contains, and prints nothing. The result is the same for all
  values of the two flags; \<open>INT\<close> is the last key and catches what the others leave, giving
  \<open>INT UNSIGNED\<close>; and the result does not depend on the keywords of the text, blob,
  numeric and temporal families that the type may also contain, since the integer matcher
  is tried first.
\<close>

theorem map_type_integer_family:
  assumes "\<exists>key \<in> set (map fst INTEGER_TYPES). sublist key (upper t)"
  shows "map_sqlite_to_mysql_type t is_primary_key is_unique =
     ((if sublist ''TINYINT'' (upper t) then ''TINYINT''
       else if sublist ''SMALLINT'' (upper t) then ''SMALLINT''
       else if sublist ''MEDIUMINT'' (upper t) then ''MEDIUMINT''
       else if sublist ''BIGINT'' (upper t) then ''BIGINT UNSIGNED''
       else ''INT UNSIGNED''), [])"
proof -
  from assms obtain key where "key \<in> set (map fst INTEGER_TYPES)" "sublist key (upper t)"
    by blast
  then have "sublist ''INT'' (upper t)"
    using integer_key_has_INT sublist_trans by blast
  then show ?thesis
    by (simp add: map_sqlite_to_mysql_type_def map_integer_type_eq truthy_def)
qed

theorem map_type_integer_family_witness:
  "(\<exists>key \<in> set (map fst INTEGER_TYPES). sublist key (upper ''bigint text'')) \<and>
   map_sqlite_to_mysql_type ''bigint text'' True True = (''BIGINT UNSIGNED'', [])"
proof -
  have h: "\<exists>key \<in> set (map fst INTEGER_TYPES). sublist key (upper ''bigint text'')"
    by code_simp
  have e: "(if sublist ''TINYINT'' (upper ''bigint text'') then ''TINYINT''
       else if sublist ''SMALLINT'' (upper ''bigint text'') then ''SMALLINT''
       else if sublist ''MEDIUMINT'' (upper ''bigint text'') then ''MEDIUMINT''
       else if sublist ''BIGINT'' (upper ''bigint text'') then ''BIGINT UNSIGNED''
       else ''INT UNSIGNED'') = ''BIGINT UNSIGNED''"
    by code_simp
  from map_type_integer_family [OF h, of True True] h show ?thesis
    unfolding e by simp
qed

section \<open>Claims about default values\<close>

text \<open>
  Claim C5. For every default that \<open>float\<close> reads as a number, \<open>build_default_sql\<close> returns
  the clause \<open>DEFAULT\<close> followed by the text of the default as it is. When the type contains
  \<open>TINYINT\<close> and the number is below \<open>-128\<close> or above \<open>127\<close>, the type returned has
  \<open>SMALLINT\<close> in place of \<open>TINYINT\<close> and the warning is printed; otherwise the type is
  unchanged and nothing is printed. The instance that follows the theorem is the column of
  type \<open>TINYINT\<close> with the default \<open>200\<close>.
\<close>

theorem numeric_default:
  assumes "py_float s = Some v"
  shows "build_default_sql (Some s) mysql_type table_name col_name =
           (if sublist ''TINYINT'' mysql_type \<and> (float_less v (- 128) \<or> float_greater v 127)
            then (('' DEFAULT '' @ s, str_replace ''TINYINT'' ''SMALLINT'' mysql_type),
                  [''Warning: Default value '' @ s @ '' for TINYINT column '' @
                   sq @ table_name @ ''.'' @ col_name @ sq @ '' exceeds range. '' @
                   ''Promoting column to SMALLINT.''])
            else (('' DEFAULT '' @ s, mysql_type), []))"
  using float_not_special [OF assms] assms
  by (simp add: build_default_sql_def)

theorem numeric_default_witness:
  "py_float ''200'' = Some (Finite 200) \<and>
   build_default_sql (Some ''200'') ''TINYINT'' ''t'' ''c'' =
     (('' DEFAULT 200'', ''SMALLINT''),
      [''Warning: Default value 200 for TINYINT column '' @ sq @ ''t.c'' @ sq @
       '' exceeds range. Promoting column to SMALLINT.''])"
  using numeric_default [OF py_float_200, of "''TINYINT''" "''t''" "''c''"]
  by (simp add: py_float_200 replace_TINYINT)

text \<open>
  Claim C6, as amended. \<open>build_default_sql\<close> returns for every default, absent or a text:
  the one exception that can be raised in it, the \<open>ValueError\<close> of \<open>float\<close>, is caught.
  A default that is present, is not a current-timestamp alias, is not a null literal and is
  not read as a number by \<open>float\<close> is treated as a string literal: all the quote characters,
  single and double, at its start and at its end are stripped (not one layer only), every
  single quote left is doubled, and the clause is the result between single quotes; the
  type is unchanged and nothing is printed.
\<close>

theorem string_default:
  assumes "\<not> is_timestamp_alias s" and "\<not> is_null_literal s" and "py_float s = None"
  shows "(\<exists>clause type' printed.
            build_default_sql default_value mysql_type table_name col_name =
              ((clause, type'), printed)) \<and>
         build_default_sql (Some s) mysql_type table_name col_name =
           (('' DEFAULT '' @ sq @
             concat (map (\<lambda>c. if c = CHR 0x27 then sq @ sq else [c]) (strip_chars (sq @ dq) s)) @
             sq, mysql_type), []) \<and>
         (\<exists>pre post. s = pre @ strip_chars (sq @ dq) s @ post \<and>
            set pre \<subseteq> {CHR 0x27, CHR 0x22} \<and> set post \<subseteq> {CHR 0x27, CHR 0x22}) \<and>
         (strip_chars (sq @ dq) s \<noteq> [] \<longrightarrow>
            hd (strip_chars (sq @ dq) s) \<notin> {CHR 0x27, CHR 0x22} \<and>
            last (strip_chars (sq @ dq) s) \<notin> {CHR 0x27, CHR 0x22})"
proof -
  have a: "build_default_sql (Some s) mysql_type table_name col_name =
           (('' DEFAULT '' @ sq @
             concat (map (\<lambda>c. if c = CHR 0x27 then sq @ sq else [c]) (strip_chars (sq @ dq) s)) @
             sq, mysql_type), [])"
    using assms
    by (simp add: build_default_sql_def is_timestamp_alias_def is_null_literal_def Let_def
        str_replace_def replace_from_single cong: if_cong)
  have b: "\<exists>pre post. s = pre @ strip_chars (sq @ dq) s @ post \<and>
            set pre \<subseteq> {CHR 0x27, CHR 0x22} \<and> set post \<subseteq> {CHR 0x27, CHR 0x22}"
    using strip_chars_split [of s "sq @ dq"] by simp
  have c: "strip_chars (sq @ dq) s \<noteq> [] \<longrightarrow>
            hd (strip_chars (sq @ dq) s) \<notin> {CHR 0x27, CHR 0x22} \<and>
            last (strip_chars (sq @ dq) s) \<notin> {CHR 0x27, CHR 0x22}"
    using strip_chars_ends [of "sq @ dq" s] by simp
  have t: "\<exists>clause type' printed.
            build_default_sql default_value mysql_type table_name col_name =
              ((clause, type'), printed)"
    by (metis surj_pair)
  from t a b c show ?thesis
    by blast
qed

theorem string_default_witness:
  "\<not> is_timestamp_alias (sq @ ''it'' @ sq @ ''s'' @ sq) \<and>
   \<not> is_null_literal (sq @ ''it'' @ sq @ ''s'' @ sq) \<and>
   py_float (sq @ ''it'' @ sq @ ''s'' @ sq) = None \<and>
   build_default_sql (Some (sq @ ''it'' @ sq @ ''s'' @ sq)) ''LONGTEXT'' ''t'' ''c'' =
     (('' DEFAULT '' @ sq @ ''it'' @ sq @ sq @ ''s'' @ sq, ''LONGTEXT''), [])"
proof -
  have h1: "\<not> is_timestamp_alias (sq @ ''it'' @ sq @ ''s'' @ sq)"
    by code_simp
  have h2: "\<not> is_null_literal (sq @ ''it'' @ sq @ ''s'' @ sq)"
    by code_simp
  have h3: "py_float (sq @ ''it'' @ sq @ ''s'' @ sq) = None"
    by code_simp
  have e: "strip_chars (sq @ dq) (sq @ ''it'' @ sq @ ''s'' @ sq) = ''it'' @ sq @ ''s''"
    by code_simp
  from string_default [OF h1 h2 h3, where mysql_type = "''LONGTEXT''" and table_name = "''t''"
      and col_name = "''c''"] h1 h2 h3
  show ?thesis
    unfolding e by simp
qed

text \<open>
  The claim C6 as stated fails on the default \<open>'"x"'\<close>: stripping one layer of quotes
  leaves \<open>"x"\<close>, but the clause built is \<open>DEFAULT 'x'\<close>.
\<close>

theorem one_layer_counterexample:
  "build_default_sql (Some (sq @ dq @ ''x'' @ dq @ sq)) ''LONGTEXT'' ''t'' ''c'' =
     (('' DEFAULT '' @ sq @ ''x'' @ sq, ''LONGTEXT''), []) \<and>
   strip_one_layer (sq @ dq @ ''x'' @ dq @ sq) = dq @ ''x'' @ dq \<and>
   \<not> is_timestamp_alias (sq @ dq @ ''x'' @ dq @ sq) \<and>
   \<not> is_null_literal (sq @ dq @ ''x'' @ dq @ sq) \<and>
   py_float (sq @ dq @ ''x'' @ dq @ sq) = None"
  by code_simp

text \<open>
  Claim C7. A default that, compared without regard to case, is \<open>CURRENT_TIMESTAMP\<close>, or
  that between single or double quotes, or that contains \<open>DATETIME('now')\<close> with single or
  double quotes, gives the clause \<open>DEFAULT CURRENT_TIMESTAMP\<close>; the type is returned
  unchanged and nothing is printed.
\<close>

theorem current_timestamp_default:
  assumes "upper s = ''CURRENT_TIMESTAMP'' \<or>
           upper s = sq @ ''CURRENT_TIMESTAMP'' @ sq \<or>
           upper s = dq @ ''CURRENT_TIMESTAMP'' @ dq \<or>
           sublist (''DATETIME('' @ sq @ ''NOW'' @ sq @ '')'') (upper s) \<or>
           sublist (''DATETIME('' @ dq @ ''NOW'' @ dq @ '')'') (upper s)"
  shows "build_default_sql (Some s) mysql_type table_name col_name =
           (('' DEFAULT CURRENT_TIMESTAMP'', mysql_type), [])"
  using upper_eq_imp_alias [OF assms]
  by (auto simp: build_default_sql_def is_timestamp_alias_def Let_def)

theorem current_timestamp_default_witness:
  "upper ''current_timestamp'' = ''CURRENT_TIMESTAMP'' \<and>
   build_default_sql (Some ''current_timestamp'') ''DATETIME'' ''t'' ''c'' =
     (('' DEFAULT CURRENT_TIMESTAMP'', ''DATETIME''), [])"
proof -
  have h: "upper ''current_timestamp'' = ''CURRENT_TIMESTAMP''"
    by code_simp
  from current_timestamp_default [OF disjI1 [OF h], of "''DATETIME''" "''t''" "''c''"] h
  show ?thesis
    by simp
qed

section \<open>Claims about the timestamp conversion\<close>

text \<open>
  Claim C8 fails where the conversion fails with \<open>OverflowError\<close>, which the handler of
  \<open>ValueError\<close> and \<open>OSError\<close> does not catch. The fourth field below is a text of 30
  digits; it is above the threshold, so it is divided by 1000, and the quotient is beyond
  the 64-bit \<open>time_t\<close>. The field is not set to \<open>None\<close> and the row is not kept: the
  exception leaves the function.
\<close>

theorem overflow_escapes_conversion:
  "epoch_of (PStr ''100000000000000000000000000000'') =
     Some (''100000000000000000000000000000'', 100000000000000000000000000000) \<and>
   utc_fromtimestamp (100000000000000000000000000000 div 1000) = Overflows \<and>
   knex_timestamp_conversion utc_fromtimestamp
     [[PInt 1, PStr ''init.js'', PInt 1, PStr ''100000000000000000000000000000'']] =
   Inl OverflowError"
  by code_simp

text \<open>
  Claim C10 fails for the same reason: of the two rows below the first is converted when it
  is alone, but with the second one, whose conversion raises \<open>OverflowError\<close>, no row is
  returned at all.
\<close>

theorem overflow_loses_rows:
  "knex_timestamp_conversion utc_fromtimestamp
     [[PInt 1, PStr ''init.js'', PInt 1, PStr ''1700000000'']] =
   Inr ([[PInt 1, PStr ''init.js'', PInt 1, PStr ''2023-11-14 22:13:20'']], []) \<and>
   knex_timestamp_conversion utc_fromtimestamp
     [[PInt 1, PStr ''init.js'', PInt 1, PStr ''1700000000''],
      [PInt 2, PStr ''next.js'', PInt 1, PStr ''100000000000000000000000000000'']] =
   Inl OverflowError"
  by code_simp

section \<open>Claims about the copy of the rows\<close>

text \<open>
  Claim C9. Let \<open>copy_rows\<close> have \<open>N\<close> rows to copy, and let exactly one batch, batch \<open>k\<close>,
  be refused by the target (its \<open>executemany\<close> or its \<open>commit\<close> raises). Then \<open>copy_rows\<close>
  returns; the rows are cut, in order, into \<open>(N + 999) div 1000\<close> batches of 1000 rows, the
  last one of what is left; for every batch the statement \<open>INSERT IGNORE INTO\<close> is
  executed; every batch other than \<open>k\<close> is followed by a commit and batch \<open>k\<close> by a
  rollback, after which the loop goes on; the lines printed give the \<open>N\<close> rows, the error
  of batch \<open>k\<close>, and \<open>total_batches - 1\<close> successful batches out of \<open>total_batches\<close>. For
  the table \<open>knex_migrations\<close> the rows copied are the ones the timestamp conversion
  returned.
\<close>

theorem copy_rows_one_failed_batch:
  assumes "fetched \<noteq> []"
    and "(if table_name = ''knex_migrations''
          then knex_timestamp_conversion fromtimestamp fetched
          else Inr (fetched, [])) = Inr (rows, out0)"
    and "k < total_batches (length rows)"
    and "\<not> batch_ok db k"
    and "\<forall>j < total_batches (length rows). j \<noteq> k \<longrightarrow> batch_ok db j"
  shows "copy_rows fromtimestamp db fetched original_col_names table_name escaped_table_name =
           Inr (concat (map (batch_calls db (insert_statement escaped_table_name original_col_names)
                               rows)
                          [0..<total_batches (length rows)]),
                out0 @
                [''Copying '' @ str_int (int (length fetched)) @ '' rows to `'' @ table_name @
                 ''` using: '' @ insert_statement escaped_table_name original_col_names] @
                batch_out db table_name k @
                [''Successfully processed '' @
                 str_int (int (total_batches (length fetched) - 1)) @ '' batches out of '' @
                 str_int (int (total_batches (length fetched))) @
                 '' for table `'' @ table_name @ ''`'',
                 ''Data copied to `'' @ table_name @ ''`.'']) \<and>
         total_batches (length fetched) = (length fetched + 999) div 1000 \<and>
         length rows = length fetched \<and>
         concat (map (batch rows) [0..<total_batches (length rows)]) = rows \<and>
         (\<forall>j < total_batches (length rows).
            batch rows j \<noteq> [] \<and> length (batch rows j) \<le> 1000 \<and>
            (Suc j < total_batches (length rows) \<longrightarrow> length (batch rows j) = 1000)) \<and>
         (\<forall>j < total_batches (length rows). j \<noteq> k \<longrightarrow>
            batch_calls db (insert_statement escaped_table_name original_col_names) rows j =
              [Executemany (insert_statement escaped_table_name original_col_names) (batch rows j),
               Commit]) \<and>
         (\<exists>calls. batch_calls db (insert_statement escaped_table_name original_col_names) rows k =
            Executemany (insert_statement escaped_table_name original_col_names) (batch rows k) #
            calls @ [Rollback]) \<and>
         (\<exists>err. batch_out db table_name k = [batch_error_line table_name (k * 1000) err]) \<and>
         prefix ''INSERT IGNORE INTO '' (insert_statement escaped_table_name original_col_names)"
proof -
  let ?T = "total_batches (length rows)"
  let ?stmt = "insert_statement escaped_table_name original_col_names"
  have len: "length rows = length fetched"
  proof (cases "table_name = ''knex_migrations''")
    case True
    with assms(2) have "knex_loop fromtimestamp fetched ([], []) = Inr (rows, out0)"
      by (simp add: knex_timestamp_conversion_def)
    from knex_loop_length [OF this] show ?thesis
      by simp
  next
    case False
    with assms(2) show ?thesis
      by simp
  qed
  have loop: "copy_batches db table_name ?stmt rows 0 (0, [], out1) =
           (length (filter (batch_ok db) [0..<?T]),
            concat (map (batch_calls db ?stmt rows) [0..<?T]),
            out1 @ concat (map (batch_out db table_name) [0..<?T]))" for out1
    using copy_batches_from [of 0 rows db table_name ?stmt 0 "[]" out1] by simp
  have count: "length (filter (batch_ok db) [0..<?T]) = ?T - 1"
    using assms(3,4,5) by (rule one_failure_count)
  have "\<forall>j < ?T. j \<noteq> k \<longrightarrow> batch_out db table_name j = []"
    using assms(5) by (auto simp: batch_ok_def batch_out_def)
  with assms(3) have outs: "concat (map (batch_out db table_name) [0..<?T]) = batch_out db table_name k"
    by (rule one_failure_out)
  have main: "copy_rows fromtimestamp db fetched original_col_names table_name escaped_table_name =
           Inr (concat (map (batch_calls db ?stmt rows) [0..<?T]),
                out0 @
                [''Copying '' @ str_int (int (length fetched)) @ '' rows to `'' @ table_name @
                 ''` using: '' @ ?stmt] @
                batch_out db table_name k @
                [''Successfully processed '' @
                 str_int (int (total_batches (length fetched) - 1)) @ '' batches out of '' @
                 str_int (int (total_batches (length fetched))) @
                 '' for table `'' @ table_name @ ''`'',
                 ''Data copied to `'' @ table_name @ ''`.''])"
    using assms(1)
    by (simp add: copy_rows_unfold assms(2) loop count [unfolded len] outs [unfolded len] len)
  have tb: "total_batches (length fetched) = (length fetched + 999) div 1000"
    by (simp add: total_batches_def batch_size_def)
  have parts: "\<forall>j < ?T. batch rows j \<noteq> [] \<and> length (batch rows j) \<le> 1000 \<and>
            (Suc j < ?T \<longrightarrow> length (batch rows j) = 1000)"
    using batch_length full_batch_length by (auto simp: batch_size_def)
  have others: "\<forall>j < ?T. j \<noteq> k \<longrightarrow>
            batch_calls db ?stmt rows j = [Executemany ?stmt (batch rows j), Commit]"
    using assms(5) by (auto simp: batch_ok_def batch_calls_def)
  have failed: "\<exists>calls. batch_calls db ?stmt rows k =
            Executemany ?stmt (batch rows k) # calls @ [Rollback]"
    using assms(4) by (auto simp: batch_ok_def batch_calls_def split: option.splits)
  have line: "\<exists>err. batch_out db table_name k = [batch_error_line table_name (k * 1000) err]"
    using assms(4) by (auto simp: batch_ok_def batch_out_def batch_size_def split: option.splits)
  have pre: "prefix ''INSERT IGNORE INTO '' ?stmt"
    by (simp add: insert_statement_def)
  from main tb len concat_batches [of rows] parts others failed line pre show ?thesis
    by blast
qed

theorem copy_rows_one_failed_batch_witness:
  "replicate 2500 [PInt 7] \<noteq> [] \<and>
   (1::nat) < total_batches (length (replicate 2500 [PInt 7])) \<and>
   \<not> batch_ok \<lparr>executemany_error = (\<lambda>i. if i = 1000 then Some ''Duplicate entry'' else None),
                commit_error = (\<lambda>i. None)\<rparr> 1 \<and>
   copy_rows utc_fromtimestamp
     \<lparr>executemany_error = (\<lambda>i. if i = 1000 then Some ''Duplicate entry'' else None),
      commit_error = (\<lambda>i. None)\<rparr>
     (replicate 2500 [PInt 7]) [''id''] ''t'' ''`t`'' =
   Inr ([Executemany ''INSERT IGNORE INTO `t` (`id`) VALUES (%s)'' (replicate 1000 [PInt 7]), Commit,
         Executemany ''INSERT IGNORE INTO `t` (`id`) VALUES (%s)'' (replicate 1000 [PInt 7]), Rollback,
         Executemany ''INSERT IGNORE INTO `t` (`id`) VALUES (%s)'' (replicate 500 [PInt 7]), Commit],
        [''Copying 2500 rows to `t` using: INSERT IGNORE INTO `t` (`id`) VALUES (%s)'',
         ''Error inserting data into `t` (batch 1, starting row 1000): Duplicate entry'',
         ''Successfully processed 2 batches out of 3 for table `t`'',
         ''Data copied to `t`.''])"
proof -
  let ?db = "\<lparr>executemany_error = (\<lambda>i. if i = 1000 then Some ''Duplicate entry'' else None),
              commit_error = (\<lambda>i. None)\<rparr>"
  let ?rows = "replicate 2500 [PInt 7]"
  have T: "total_batches (length ?rows) = 3"
    by (simp add: total_batches_def batch_size_def)
  have h1: "?rows \<noteq> []"
    by simp
  have h2: "(if ''t'' = ''knex_migrations''
          then knex_timestamp_conversion utc_fromtimestamp ?rows
          else Inr (?rows, [])) = Inr (?rows, [])"
    by simp
  have h3: "1 < total_batches (length ?rows)"
    unfolding T by simp
  have h4: "\<not> batch_ok ?db 1"
    by (simp add: batch_ok_def batch_size_def)
  have h5: "\<forall>j < total_batches (length ?rows). j \<noteq> 1 \<longrightarrow> batch_ok ?db j"
    unfolding T by (auto simp: batch_ok_def batch_size_def)
  have upt3: "[0..<3] = [0, 1, 2::nat]"
    by code_simp
  have stmt: "insert_statement ''`t`'' [''id''] = ''INSERT IGNORE INTO `t` (`id`) VALUES (%s)''"
    by code_simp
  have n1: "str_int 2500 = ''2500''" and n2: "str_int 2 = ''2''" and n3: "str_int 3 = ''3''"
    and n4: "str_int 1 = ''1''" and n5: "str_int 1000 = ''1000''"
    by code_simp+
  have T': "total_batches 2500 = 3"
    by (simp add: total_batches_def batch_size_def)
  from copy_rows_one_failed_batch [OF h1 h2 h3 h4 h5, of "[''id'']" "''`t`''"]
  have "copy_rows utc_fromtimestamp ?db ?rows [''id''] ''t'' ''`t`'' =
           Inr (concat (map (batch_calls ?db (insert_statement ''`t`'' [''id'']) ?rows)
                          [0..<total_batches (length ?rows)]),
                [] @
                [''Copying '' @ str_int (int (length ?rows)) @ '' rows to `'' @ ''t'' @
                 ''` using: '' @ insert_statement ''`t`'' [''id'']] @
                batch_out ?db ''t'' 1 @
                [''Successfully processed '' @
                 str_int (int (total_batches (length ?rows) - 1)) @ '' batches out of '' @
                 str_int (int (total_batches (length ?rows))) @
                 '' for table `'' @ ''t'' @ ''`'',
                 ''Data copied to `'' @ ''t'' @ ''`.''])"
    by blast
  then have "copy_rows utc_fromtimestamp ?db ?rows [''id''] ''t'' ''`t`'' =
   Inr ([Executemany ''INSERT IGNORE INTO `t` (`id`) VALUES (%s)'' (replicate 1000 [PInt 7]), Commit,
         Executemany ''INSERT IGNORE INTO `t` (`id`) VALUES (%s)'' (replicate 1000 [PInt 7]), Rollback,
         Executemany ''INSERT IGNORE INTO `t` (`id`) VALUES (%s)'' (replicate 500 [PInt 7]), Commit],
        [''Copying 2500 rows to `t` using: INSERT IGNORE INTO `t` (`id`) VALUES (%s)'',
         ''Error inserting data into `t` (batch 1, starting row 1000): Duplicate entry'',
         ''Successfully processed 2 batches out of 3 for table `t`'',
         ''Data copied to `t`.''])"
    by (simp add: T' upt3 stmt batch_calls_def batch_out_def batch_def batch_size_def
        batch_error_line_def n1 n2 n3 n4 n5)
  with h1 h3 h4 show ?thesis
    by blast
qed

end
